theory Spec2Isabelle
  imports Complex_Main "HOL-Library.Log_Nat"
begin

section \<open>Python string operations used by the remediator\<close>

text \<open>
  Strings are lists of 8-bit characters, read as the code points 0..255 of a Python
  \<open>str\<close>. \<open>py_isspace\<close> is \<open>str.isspace\<close> on that range, \<open>py_strip\<close> is
  \<open>str.strip()\<close> without argument, \<open>py_lower\<close> is \<open>str.lower()\<close> (the ASCII capitals
  and the Latin-1 capitals 192..214 and 216..222 move up by 32).
\<close>

definition py_isspace :: "char \<Rightarrow> bool" where
  "py_isspace c = ((of_char c :: nat) \<in> {9, 10, 11, 12, 13, 28, 29, 30, 31, 32, 133, 160})"

definition py_strip :: "string \<Rightarrow> string" where
  "py_strip s = rev (dropWhile py_isspace (rev (dropWhile py_isspace s)))"

definition py_lower_char :: "char \<Rightarrow> char" where
  "py_lower_char c =
     (let n = (of_char c :: nat)
      in if (65 \<le> n \<and> n \<le> 90) \<or> (192 \<le> n \<and> n \<le> 214) \<or> (216 \<le> n \<and> n \<le> 222)
         then char_of (n + 32) else c)"

definition py_lower :: "string \<Rightarrow> string" where
  "py_lower s = map py_lower_char s"

definition startswith :: "string \<Rightarrow> string \<Rightarrow> bool" where
  "startswith s p = (take (length p) s = p)"

section \<open>Binary floating point (Python \<open>float\<close>)\<close>

text \<open>
  A Python \<open>float\<close> is an IEEE 754 binary64 number: a 53-bit significand, results rounded
  to the nearest representable value, ties to the even significand. Values are rationals;
  \<open>round53\<close> rounds a rational to 53 significant bits, whatever its exponent. The
  quotient \<open>fdiv\<close> and the product \<open>fmul\<close> are taken of list lengths and of a quotient that
  is at most 1: they cannot leave the binary64 exponent range upwards, and downwards only
  for a list of \<open>2 ^ 1022\<close> elements. The quotient \<open>truediv\<close> of two arbitrary Python
  integers has the exponent range as well: below \<open>2 ^ - 1022\<close> the result is rounded to a
  multiple of \<open>2 ^ - 1074\<close> (a subnormal number or zero), and a quotient whose rounded
  value reaches \<open>2 ^ 1024\<close> raises \<open>OverflowError\<close>.
\<close>

datatype py_error = OverflowError | ZeroDivisionError

definition rne :: "rat \<Rightarrow> int" where
  \<comment> \<open>round to the nearest integer, ties to even\<close>
  "rne z =
     (let f = \<lfloor>z\<rfloor>; d = z - of_int f
      in if d < 1 / 2 then f else if 1 / 2 < d then f + 1 else if even f then f else f + 1)"

definition ilog2 :: "rat \<Rightarrow> int" where
  \<comment> \<open>for \<open>0 < x\<close>, the integer \<open>e\<close> with \<open>2 ^ e \<le> x < 2 ^ (e + 1)\<close>\<close>
  "ilog2 x =
     (if 1 \<le> x then int (floorlog 2 (nat \<lfloor>x\<rfloor>)) - 1
      else - int (floorlog 2 (nat (\<lceil>1 / x\<rceil> - 1))))"

definition round53 :: "rat \<Rightarrow> rat" where
  "round53 x =
     (if x = 0 then 0
      else let u = 2 powi (ilog2 \<bar>x\<bar> - 52)
           in sgn x * of_int (rne (\<bar>x\<bar> / u)) * u)"

definition fdiv :: "int \<Rightarrow> int \<Rightarrow> rat" where
  \<comment> \<open>\<open>a / b\<close> on Python ints with \<open>b \<noteq> 0\<close>: the exact quotient, correctly rounded\<close>
  "fdiv a b = round53 (of_int a / of_int b)"

definition truediv :: "int \<Rightarrow> int \<Rightarrow> py_error + rat" where
  \<comment> \<open>\<open>a / b\<close> on Python ints of any size\<close>
  "truediv a b =
     (if b = 0 then Inl ZeroDivisionError
      else let x = of_int a / of_int b
           in if x = 0 then Inr 0
              else if ilog2 \<bar>x\<bar> < - 1022
              then Inr (sgn x * of_int (rne (\<bar>x\<bar> / 2 powi (- 1074))) * 2 powi (- 1074))
              else let q = round53 x
                   in if 1024 \<le> ilog2 \<bar>q\<bar> then Inl OverflowError else Inr q)"

definition fmul :: "rat \<Rightarrow> rat \<Rightarrow> rat" where
  "fmul x y = round53 (x * y)"

definition float_lit :: "rat \<Rightarrow> rat" where
  \<comment> \<open>a decimal literal denotes the nearest binary64 value\<close>
  "float_lit q = round53 q"

section \<open>Alt-text validator (\<open>EnhancedPDFRemediator._validate_alt_text_for_content\<close>)\<close>

definition generic_alt_phrases :: "string list" where
  "generic_alt_phrases =
     [''image'', ''picture'', ''photo'', ''graphic'', ''icon'', ''logo'', ''diagram'',
      ''illustration'', ''figure'', ''chart'', ''graph'', ''screenshot'', ''placeholder'']"

definition validate_alt_text_for_content :: "string \<Rightarrow> string \<Rightarrow> bool" where
  "validate_alt_text_for_content alt_text element_type =
     (if alt_text = [] \<or> py_strip alt_text = [] then False
      else let alt_lower = py_strip (py_lower alt_text)
           in if alt_lower \<in> set generic_alt_phrases then False
              else if (startswith alt_lower ''image of'' \<or> startswith alt_lower ''picture of''
                       \<or> startswith alt_lower ''photo of'' \<or> startswith alt_lower ''graphic of'')
                      \<and> length alt_lower < 20 then False
              else if length (py_strip alt_text) < 10 then False
              else True)"

section \<open>Decimal rendering of numbers in f-strings\<close>

definition digit_char :: "nat \<Rightarrow> char" where
  "digit_char d = char_of (48 + d)"

function str_nat :: "nat \<Rightarrow> string" where
  "str_nat n = (if n < 10 then [digit_char n] else str_nat (n div 10) @ [digit_char (n mod 10)])"
  by pat_completeness auto
termination
  by (relation "measure (\<lambda>n. n)") auto

declare str_nat.simps [simp del]

section \<open>Decorative classifier (\<open>ImageInfo.determine_if_decorative\<close>)\<close>

record ImageInfo =
  img_name :: string
  img_width :: int
  img_height :: int
  img_page_number :: nat
  img_is_decorative :: bool
  img_alt_text :: string

definition determine_if_decorative :: "ImageInfo \<Rightarrow> py_error + bool" where
  \<comment> \<open>\<open>Inl\<close>: the division raises and the method returns nothing\<close>
  "determine_if_decorative img =
     (if img_width img < 20 \<or> img_height img < 20 then Inr True
      else case (if img_height img > 0 then truediv (img_width img) (img_height img) else Inr 0) of
             Inl e \<Rightarrow> Inl e
           | Inr aspect_ratio \<Rightarrow>
               if aspect_ratio > 20 \<or> aspect_ratio < float_lit (5 / 100) then Inr True
               else if img_width img * img_height img < 400 then Inr True
               else Inr False)"

section \<open>Compliance report (\<open>AccessibilityChecker\<close>)\<close>

text \<open>
  An issue is the dictionary built by \<open>add_issue\<close>, without its \<open>guideline_name\<close> and
  \<open>remediation\<close> texts. Where the source joins a Python \<open>set\<close> into the description, the
  order of the parts is not determined; \<open>i_detail\<close> holds that set and \<open>i_description\<close>
  the text before it.
\<close>

record issue =
  i_guideline :: string
  i_title :: string
  i_description :: string
  i_detail :: "string set"
  i_severity :: string
  i_level :: string
  i_type :: string

record passed_check =
  pc_guideline :: string
  pc_title :: string

record AccessibilityChecker =
  issues :: "issue list"
  warnings :: "issue list"
  passed_checks :: "passed_check list"

definition add_issue ::
  "string \<Rightarrow> string \<Rightarrow> string \<Rightarrow> string set \<Rightarrow> string \<Rightarrow> string \<Rightarrow> AccessibilityChecker
   \<Rightarrow> AccessibilityChecker" where
  "add_issue guideline title description detail severity issue_type c =
     (let issue = \<lparr>i_guideline = guideline, i_title = title, i_description = description,
                    i_detail = detail, i_severity = severity,
                    i_level = (if guideline \<in> set [''1.4.3'', ''2.4.6'', ''3.1.2''] then ''AA'' else ''A''),
                    i_type = issue_type\<rparr>
      in if severity = ''error'' then c\<lparr>issues := issues c @ [issue]\<rparr>
         else c\<lparr>warnings := warnings c @ [issue]\<rparr>)"

definition add_passed_check :: "string \<Rightarrow> string \<Rightarrow> AccessibilityChecker \<Rightarrow> AccessibilityChecker" where
  "add_passed_check guideline title c =
     c\<lparr>passed_checks := passed_checks c @ [\<lparr>pc_guideline = guideline, pc_title = title\<rparr>]\<rparr>"

definition py_int :: "rat \<Rightarrow> int" where
  \<comment> \<open>\<open>int(x)\<close> of a float: truncation towards zero\<close>
  "py_int x = (if 0 \<le> x then \<lfloor>x\<rfloor> else \<lceil>x\<rceil>)"

record checker_report =
  compliance_score :: int
  passes_wcag :: bool
  total_checks :: nat
  passed_count :: nat
  issues_count :: nat
  warnings_count :: nat
  report_issues :: "issue list"
  report_warnings :: "issue list"
  report_passed_checks :: "passed_check list"
  report_summary :: string

definition generate_summary :: "bool \<Rightarrow> int \<Rightarrow> string" where
  \<comment> \<open>the \<open>status\<close> entry of the summary\<close>
  "generate_summary passes score =
     (if passes then ''pass''
      else if score \<ge> 80 then ''near_pass''
      else if score \<ge> 50 then ''needs_work''
      else ''fail'')"

definition generate_report :: "AccessibilityChecker \<Rightarrow> checker_report" where
  "generate_report c =
     (let total = length (issues c) + length (warnings c) + length (passed_checks c);
          passed = length (passed_checks c);
          issues_n = length (issues c);
          warnings_n = length (warnings c);
          score = (if total > 0 then py_int (fmul (fdiv (int passed) (int total)) 100) else 0);
          passes = (issues_n = 0)
      in \<lparr>compliance_score = score, passes_wcag = passes, total_checks = total,
          passed_count = passed, issues_count = issues_n, warnings_count = warnings_n,
          report_issues = issues c, report_warnings = warnings c,
          report_passed_checks = passed_checks c,
          report_summary = generate_summary passes score\<rparr>)"

section \<open>Headings of an HTML document\<close>

text \<open>
  The heading functions read a parsed document through \<open>find_all\<close> of \<open>h1\<close>..\<open>h6\<close> (the
  headings in document order), \<open>find('main')\<close> and \<open>main.insert(0, h1)\<close>. A document is
  therefore its headings in document order, each with its level and its text as
  \<open>get_text(strip=True)\<close> gives it, and the place of the first \<open>main\<close> element among them:
  \<open>doc_main = Some n\<close> when \<open>n\<close> headings start before it, \<open>None\<close> when there is no
  \<open>main\<close>. A new first child of \<open>main\<close> comes after these \<open>n\<close> headings and before all others.
\<close>

record heading =
  h_level :: nat
  h_text :: string

record html_doc =
  doc_headings :: "heading list"
  doc_main :: "nat option"

definition new_h1 :: heading where
  "new_h1 = \<lparr>h_level = 1, h_text = ''Document''\<rparr>"

definition main_insert_h1 :: "html_doc \<Rightarrow> html_doc" where
  \<comment> \<open>\<open>main.insert(0, h1)\<close> when \<open>main\<close> exists, nothing otherwise\<close>
  "main_insert_h1 d =
     (case doc_main d of
        None \<Rightarrow> d
      | Some n \<Rightarrow> d\<lparr>doc_headings := take n (doc_headings d) @ [new_h1] @ drop n (doc_headings d)\<rparr>)"

fun clamp_levels :: "nat \<Rightarrow> heading list \<Rightarrow> heading list" where
  "clamp_levels last_level [] = []"
| "clamp_levels last_level (h # hs) =
     (if h_level h > last_level + 1
      then h\<lparr>h_level := last_level + 1\<rparr> # clamp_levels (last_level + 1) hs
      else h # clamp_levels (h_level h) hs)"

definition fix_heading_hierarchy :: "html_doc \<Rightarrow> html_doc" where
  "fix_heading_hierarchy d =
     (case doc_headings d of
        [] \<Rightarrow> main_insert_h1 d
      | first_heading # rest \<Rightarrow>
          let d1 = (if h_level first_heading \<noteq> 1
                    then (if doc_main d \<noteq> None \<and> length (h_text first_heading) < 100
                          then d\<lparr>doc_headings := first_heading\<lparr>h_level := 1\<rparr> # rest\<rparr>
                          else main_insert_h1 d)
                    else d)
          in d1\<lparr>doc_headings := clamp_levels 1 (doc_headings d1)\<rparr>)"

fun skipped_levels :: "nat \<Rightarrow> heading list \<Rightarrow> string list" where
  "skipped_levels last_level [] = []"
| "skipped_levels last_level (h # hs) =
     (if last_level > 0 \<and> h_level h > last_level + 1
      then (''h'' @ str_nat last_level @ '' to h'' @ str_nat (h_level h)) # skipped_levels (h_level h) hs
      else skipped_levels (h_level h) hs)"

definition check_heading_hierarchy :: "html_doc \<Rightarrow> AccessibilityChecker \<Rightarrow> AccessibilityChecker" where
  "check_heading_hierarchy d c =
     (case doc_headings d of
        [] \<Rightarrow> add_issue ''2.4.6'' ''No Headings Found''
                ''The document does not contain any headings.'' {} ''error'' ''missing_headings'' c
      | first_heading # rest \<Rightarrow>
          let c1 = (if h_level first_heading \<noteq> 1
                    then add_issue ''2.4.6'' ''First Heading is Not H1''
                           (''The first heading is H'' @ str_nat (h_level first_heading) @ '', not H1.'')
                           {} ''error'' ''wrong_first_heading'' c
                    else c);
              skipped = skipped_levels 0 (doc_headings d);
              c2 = (if skipped \<noteq> []
                    then add_issue ''1.3.1'' ''Skipped Heading Levels''
                           ''Heading levels are skipped: '' (set skipped) ''error''
                           ''skipped_heading_levels'' c1
                    else add_passed_check ''2.4.6''
                           ''Heading hierarchy is logical (no skipped levels)'' c1);
              empty_headings = filter (\<lambda>h. h_text h = []) (doc_headings d)
          in if empty_headings \<noteq> []
             then add_issue ''2.4.6'' ''Empty Headings Found''
                    (''Found '' @ str_nat (length empty_headings) @ '' empty heading(s).'')
                    {} ''error'' ''unknown'' c2
             else add_passed_check ''2.4.6'' ''All headings contain text'' c2)"

section \<open>Predicates on resolved heading levels\<close>

definition resolved_levels :: "html_doc \<Rightarrow> nat list" where
  "resolved_levels d = map h_level (doc_headings d)"

fun no_upward_gap :: "nat list \<Rightarrow> bool" where
  \<comment> \<open>no level is more than one above the level before it\<close>
  "no_upward_gap (a # b # r) = (b \<le> a + 1 \<and> no_upward_gap (b # r))"
| "no_upward_gap r = True"

fun levels_within_one :: "nat list \<Rightarrow> bool" where
  \<comment> \<open>no two consecutive levels differ by more than one, in either direction\<close>
  "levels_within_one (a # b # r) = (b \<le> a + 1 \<and> a \<le> b + 1 \<and> levels_within_one (b # r))"
| "levels_within_one r = True"

definition h1_ensured :: "html_doc \<Rightarrow> bool" where
  \<comment> \<open>the documents on which the first two steps of \<open>fix_heading_hierarchy\<close> leave an
      \<open>h1\<close> in front: the first heading is one already, or it is renamed (there is a
      \<open>main\<close> and its text is short), or no heading starts before \<open>main\<close>\<close>
  "h1_ensured d =
     (case doc_headings d of
        [] \<Rightarrow> doc_main d \<noteq> None
      | f # _ \<Rightarrow> h_level f = 1 \<or> (doc_main d \<noteq> None \<and> length (h_text f) < 100)
                 \<or> doc_main d = Some 0)"

definition reinsertion_free :: "html_doc \<Rightarrow> bool" where
  \<comment> \<open>all documents but those where a first heading that is not \<open>h1\<close>, with a text of 100
      characters or more, starts before \<open>main\<close>\<close>
  "reinsertion_free d =
     (case doc_headings d of
        [] \<Rightarrow> True
      | f # _ \<Rightarrow> h_level f = 1 \<or> length (h_text f) < 100 \<or> doc_main d = None
                 \<or> doc_main d = Some 0)"

section \<open>More string operations\<close>

definition py_replace_char :: "char \<Rightarrow> char \<Rightarrow> string \<Rightarrow> string" where
  \<comment> \<open>\<open>s.replace(a, b)\<close> for one-character \<open>a\<close> and \<open>b\<close>\<close>
  "py_replace_char a b s = map (\<lambda>c. if c = a then b else c) s"

definition py_is_cased :: "char \<Rightarrow> bool" where
  "py_is_cased c =
     (let n = (of_char c :: nat)
      in (65 \<le> n \<and> n \<le> 90) \<or> (97 \<le> n \<and> n \<le> 122) \<or> n = 170 \<or> n = 181 \<or> n = 186
         \<or> (192 \<le> n \<and> n \<le> 214) \<or> (216 \<le> n \<and> n \<le> 246) \<or> (248 \<le> n \<and> n \<le> 255))"

definition py_title_char :: "char \<Rightarrow> string" where
  \<comment> \<open>the title-case form of one character; the capitals of the code points 181 and 255
      lie outside the range of \<open>char\<close>, these two are left as they are\<close>
  "py_title_char c =
     (let n = (of_char c :: nat)
      in if (97 \<le> n \<and> n \<le> 122) \<or> (224 \<le> n \<and> n \<le> 246) \<or> (248 \<le> n \<and> n \<le> 254)
         then [char_of (n - 32)]
         else if n = 223 then ''Ss'' else [c])"

fun py_title_from :: "bool \<Rightarrow> string \<Rightarrow> string" where
  "py_title_from previous_is_cased [] = []"
| "py_title_from previous_is_cased (c # cs) =
     (if previous_is_cased then [py_lower_char c] else py_title_char c)
     @ py_title_from (py_is_cased c) cs"

definition py_title :: "string \<Rightarrow> string" where
  "py_title s = py_title_from False s"

function strip_protocol :: "string \<Rightarrow> string" where
  \<comment> \<open>\<open>re.sub(r'https?://', '', url)\<close>: every occurrence is removed, scanning from the left\<close>
  "strip_protocol s =
     (if s = [] then []
      else if startswith s ''https://'' then strip_protocol (drop 8 s)
      else if startswith s ''http://'' then strip_protocol (drop 7 s)
      else hd s # strip_protocol (tl s))"
  by pat_completeness auto
termination
  by (relation "measure length") (auto simp: startswith_def)

declare strip_protocol.simps [simp del]

definition enumerate1 :: "'a list \<Rightarrow> (nat \<times> 'a) list" where
  \<comment> \<open>\<open>enumerate(xs, 1)\<close>\<close>
  "enumerate1 xs = zip [1 ..< Suc (length xs)] xs"

section \<open>The PDF document as the remediator reads and writes it\<close>

text \<open>
  Only the dictionary entries the remediator touches are kept. An absent entry is \<open>None\<close>.
  Names are stored without their leading slash. An XObject dictionary is the list of its
  (name, object) entries in key order; a page without \<open>/Resources\<close> or \<open>/XObject\<close> has
  none, a page without \<open>/Annots\<close> has no annotations. Strings hold code points 0..255.
  The remediator also tests an annotation and a form field for truth (\<open>if not annot\<close>,
  \<open>if not field\<close>), which for a dictionary asks whether it has any entry at all; so both
  records say in \<open>a_other\<close> and \<open>f_other\<close> whether the dictionary has an entry that the
  other components do not show.
\<close>

record xobject =
  x_Subtype :: "string option"
  x_Width :: "int option"
  x_Height :: "int option"

record pdf_annot =
  a_Subtype :: "string option"
  a_Contents :: "string option"
  a_URI :: "string option"
  a_has_Alt :: bool
  a_StructParent :: "nat option"
  a_other :: bool

record pdf_page =
  p_XObject :: "(string \<times> xobject) list"
  p_Annots :: "pdf_annot list"

record mcr =
  mcr_MCID :: nat
  mcr_Pg :: nat

record struct_elem =
  se_S :: string
  se_P :: bool
  se_Alt :: "string option"
  se_T :: "string option"
  se_BBox :: "int list option"
  se_Summary :: "string option"
  se_K :: "mcr list"

datatype nums_item = NumInt int | NumElem struct_elem | NumOther

record parent_tree =
  pt_Nums :: "nums_item list option"

record struct_tree_root =
  st_K :: "struct_elem list option"
  st_ParentTree :: "parent_tree option"
  st_RoleMap :: bool

record form_field =
  f_FT :: "string option"
  f_T :: "string option"
  f_TU :: "string option"
  f_P :: "nat option"
  f_Ff :: "int option"
  f_StructParent :: "nat option"
  f_other :: bool

text \<open>
  \<open>f_P\<close> is the number (from 1) of the page the field's \<open>/P\<close> refers to, \<open>None\<close> when
  the field has no \<open>/P\<close> or no page matches it (such a \<open>/P\<close> is an entry that \<open>f_other\<close>
  accounts for). \<open>mcr_Pg\<close> is a page number as well. In an annotation an \<open>/A\<close> without
  \<open>/URI\<close> is an entry that \<open>a_other\<close> accounts for.
\<close>

definition annot_is_empty :: "pdf_annot \<Rightarrow> bool" where
  \<comment> \<open>\<open>not annot\<close>: the dictionary has no entry\<close>
  "annot_is_empty annot \<longleftrightarrow>
     a_Subtype annot = None \<and> a_Contents annot = None \<and> a_URI annot = None
     \<and> \<not> a_has_Alt annot \<and> a_StructParent annot = None \<and> \<not> a_other annot"

definition field_is_empty :: "form_field \<Rightarrow> bool" where
  \<comment> \<open>\<open>not field\<close>: the dictionary has no entry\<close>
  "field_is_empty field \<longleftrightarrow>
     f_FT field = None \<and> f_T field = None \<and> f_TU field = None \<and> f_P field = None
     \<and> f_Ff field = None \<and> f_StructParent field = None \<and> \<not> f_other field"

record pdf_document =
  pages :: "pdf_page list"
  MarkInfo_Marked :: "bool option"
  StructTreeRoot :: "struct_tree_root option"
  AcroForm_Fields :: "form_field list option"

section \<open>The remediator: analysis results and report\<close>

record TableInfo =
  tbl_page_number :: nat
  tbl_rows :: nat
  tbl_columns :: nat
  tbl_has_header_row :: bool
  tbl_has_header_column :: bool
  tbl_summary :: string

record LinkInfo =
  link_text :: string
  link_url :: string
  link_page_number :: nat
  link_is_descriptive :: bool

record FormFieldInfo =
  ff_field_type :: string
  ff_name :: string
  ff_page_number :: nat
  ff_has_label :: bool
  ff_has_tooltip :: bool
  ff_tooltip_text :: string
  ff_label_text :: string
  ff_is_required :: bool
  ff_field_ref :: "nat option"

record AnnotationInfo =
  an_annotation_type :: string
  an_subtype :: string
  an_page_number :: nat
  an_contents :: string
  an_has_alt_text :: bool
  an_is_tagged :: bool
  an_annot_ref :: "(nat \<times> nat) option"

text \<open>
  \<open>ff_field_ref\<close> is the position of the field in \<open>/AcroForm /Fields\<close>, \<open>an_annot_ref\<close>
  the page number and the position in that page's \<open>/Annots\<close>: the references to the PDF
  objects that the source keeps. The report keeps its counters; the list of issue texts
  and everything printed are left out.
\<close>

record RemediationReport =
  images_tagged :: nat
  tables_tagged :: nat
  headings_tagged :: nat
  links_fixed :: nat
  decorative_images :: nat
  form_fields_tagged :: nat
  annotations_tagged :: nat
  artifacts_marked :: nat

record remediator =
  pdf :: pdf_document
  images :: "ImageInfo list"
  tables :: "TableInfo list"
  links :: "LinkInfo list"
  form_fields :: "FormFieldInfo list"
  annotations :: "AnnotationInfo list"
  report :: RemediationReport

definition new_remediator :: "pdf_document \<Rightarrow> remediator" where
  \<comment> \<open>\<open>__init__\<close> followed by \<open>load_pdf\<close>\<close>
  "new_remediator d =
     \<lparr>pdf = d, images = [], tables = [], links = [], form_fields = [], annotations = [],
      report = \<lparr>images_tagged = 0, tables_tagged = 0, headings_tagged = 0, links_fixed = 0,
                decorative_images = 0, form_fields_tagged = 0, annotations_tagged = 0,
                artifacts_marked = 0\<rparr>\<rparr>"

section \<open>Links (\<open>LinkInfo.is_generic_link_text\<close>, \<open>analyze_links\<close>, \<open>fix_links\<close>)\<close>

definition generic_phrases :: "string list" where
  "generic_phrases =
     [''click here'', ''read more'', ''more'', ''link'', ''here'',
      ''this'', ''page'', ''website'', ''download'', ''view'']"

definition is_generic_link_text :: "LinkInfo \<Rightarrow> bool" where
  "is_generic_link_text l =
     (let text_lower = py_strip (py_lower (link_text l))
      in text_lower \<in> set generic_phrases \<or> length text_lower < 3)"

definition link_of_annot :: "nat \<Rightarrow> pdf_annot \<Rightarrow> LinkInfo option" where
  \<comment> \<open>the body of the loop of \<open>analyze_links\<close> for one annotation\<close>
  "link_of_annot page_num annot =
     (if a_Subtype annot \<noteq> Some ''Link'' then None
      else let url = (case a_URI annot of None \<Rightarrow> [] | Some u \<Rightarrow> u);
               text = (case a_Contents annot of None \<Rightarrow> [] | Some t \<Rightarrow> t)
           in if text \<noteq> [] \<or> url \<noteq> []
              then let link_info = \<lparr>link_text = text, link_url = url,
                                      link_page_number = page_num, link_is_descriptive = False\<rparr>
                   in Some (link_info\<lparr>link_is_descriptive := \<not> is_generic_link_text link_info\<rparr>)
              else None)"

definition analyze_links :: "remediator \<Rightarrow> remediator" where
  "analyze_links r =
     r\<lparr>links := concat (map (\<lambda>(page_num, page). List.map_filter (link_of_annot page_num) (p_Annots page))
                              (enumerate1 (pages (pdf r))))\<rparr>"

definition generate_link_description :: "string \<Rightarrow> string" where
  "generate_link_description url =
     (let url1 = strip_protocol url;
          url2 = (if startswith url1 ''www.'' then drop 4 url1 else url1);
          domain = takeWhile (\<lambda>c. c \<noteq> CHR ''/'') url2;
          domain1 = py_replace_char CHR ''_'' CHR '' '' (py_replace_char CHR ''-'' CHR '' '' domain)
      in ''Link to '' @ domain1)"

definition fix_link :: "LinkInfo \<Rightarrow> LinkInfo" where
  \<comment> \<open>the body of the loop of \<open>fix_links\<close>\<close>
  "fix_link l =
     (if \<not> link_is_descriptive l \<and> link_url l \<noteq> []
      then l\<lparr>link_text := generate_link_description (link_url l)\<rparr>
      else l)"

definition fix_links :: "remediator \<Rightarrow> remediator \<times> nat" where
  "fix_links r =
     (let r1 = (if links r = [] then analyze_links r else r);
          fixed_count = length (filter (\<lambda>l. \<not> link_is_descriptive l \<and> link_url l \<noteq> []) (links r1))
      in (r1\<lparr>links := map fix_link (links r1),
              report := (report r1)\<lparr>links_fixed := fixed_count\<rparr>\<rparr>, fixed_count))"

section \<open>Analysis of images, form fields and annotations\<close>

definition generate_alt_text :: "ImageInfo \<Rightarrow> nat \<Rightarrow> py_error + string" where
  "generate_alt_text img_info page_num =
     (case (if img_height img_info > 0 then truediv (img_width img_info) (img_height img_info)
            else Inr 1) of
        Inl e \<Rightarrow> Inl e
      | Inr aspect_ratio \<Rightarrow>
          Inr (if aspect_ratio > 2
               then ''Horizontal diagram or illustration (page '' @ str_nat page_num
                    @ ''). Review and update with actual content description.''
               else if aspect_ratio < 1 / 2
               then ''Vertical graphic (page '' @ str_nat page_num
                    @ ''). Review and update with actual content description.''
               else if img_width img_info > 400 \<and> img_height img_info > 400
               then ''Figure or photograph (page '' @ str_nat page_num
                    @ ''). Review and update with description of what image depicts.''
               else ''Graphic element (page '' @ str_nat page_num
                    @ ''). Review and update with actual content or purpose.''))"

definition x_width :: "xobject \<Rightarrow> int" where
  \<comment> \<open>\<open>obj.get('/Width', 0)\<close>\<close>
  "x_width obj = (case x_Width obj of None \<Rightarrow> 0 | Some w \<Rightarrow> w)"

definition x_height :: "xobject \<Rightarrow> int" where
  "x_height obj = (case x_Height obj of None \<Rightarrow> 0 | Some h \<Rightarrow> h)"

definition image_info_of :: "nat \<Rightarrow> string \<times> xobject \<Rightarrow> py_error + ImageInfo option" where
  \<comment> \<open>the body of the inner loop of \<open>analyze_images\<close>: \<open>Inr None\<close> for an object that is
      no image, \<open>Inl\<close> when a division raises\<close>
  "image_info_of page_num entry =
     (case entry of (obj_name, obj) \<Rightarrow>
        if x_Subtype obj = Some ''Image''
        then let img_info = \<lparr>img_name = obj_name, img_width = x_width obj, img_height = x_height obj,
                               img_page_number = page_num, img_is_decorative = False,
                               img_alt_text = []\<rparr>
             in case determine_if_decorative img_info of
                  Inl e \<Rightarrow> Inl e
                | Inr decorative \<Rightarrow>
                    let img_info1 = img_info\<lparr>img_is_decorative := decorative\<rparr>
                    in if img_is_decorative img_info1
                       then Inr (Some (img_info1\<lparr>img_alt_text := []\<rparr>))
                       else (case generate_alt_text img_info1 page_num of
                               Inl e \<Rightarrow> Inl e
                             | Inr alt_text \<Rightarrow> Inr (Some (img_info1\<lparr>img_alt_text := alt_text\<rparr>)))
        else Inr None)"

fun analyze_images_loop :: "(nat \<times> string \<times> xobject) list \<Rightarrow> ImageInfo list \<Rightarrow> ImageInfo list" where
  \<comment> \<open>both loops of \<open>analyze_images\<close>, over the objects of all pages in order; an exception
      leaves them, and the handler keeps the list \<open>images\<close> as far as it has got (\<open>found\<close>)\<close>
  "analyze_images_loop [] found = found"
| "analyze_images_loop ((page_num, entry) # rest) found =
     (case image_info_of page_num entry of
        Inl e \<Rightarrow> found
      | Inr None \<Rightarrow> analyze_images_loop rest found
      | Inr (Some img_info) \<Rightarrow> analyze_images_loop rest (found @ [img_info]))"

definition analyze_images :: "remediator \<Rightarrow> remediator" where
  "analyze_images r =
     (let imgs = analyze_images_loop
                   (concat (map (\<lambda>(page_num, page). map (Pair page_num) (p_XObject page))
                                (enumerate1 (pages (pdf r))))) []
      in r\<lparr>images := imgs,
           report := (report r)\<lparr>decorative_images :=
                         decorative_images (report r) + length (filter img_is_decorative imgs)\<rparr>\<rparr>)"

definition form_field_info_of :: "nat \<times> form_field \<Rightarrow> FormFieldInfo" where
  \<comment> \<open>the body of the loop of \<open>analyze_form_fields\<close>; the first component is the position of
      the field in \<open>/Fields\<close>\<close>
  "form_field_info_of entry =
     (case entry of (i, field) \<Rightarrow>
        let field_type = (case f_FT field of None \<Rightarrow> ''Unknown'' | Some n \<Rightarrow> n);
            field_name = (case f_T field of None \<Rightarrow> [] | Some t \<Rightarrow> t);
            page_num = (case f_P field of None \<Rightarrow> 1 | Some n \<Rightarrow> n);
            tooltip_text = (case f_TU field of None \<Rightarrow> [] | Some t \<Rightarrow> t);
            label_text = field_name;
            flags = (case f_Ff field of None \<Rightarrow> 0 | Some n \<Rightarrow> n)
        in \<lparr>ff_field_type = field_type, ff_name = field_name, ff_page_number = page_num,
            ff_has_label = (label_text \<noteq> []), ff_has_tooltip = (tooltip_text \<noteq> []),
            ff_tooltip_text = tooltip_text, ff_label_text = label_text,
            ff_is_required = ((flags div 2) mod 2 = 1), ff_field_ref = Some i\<rparr>)"

definition analyze_form_fields :: "remediator \<Rightarrow> remediator" where
  "analyze_form_fields r =
     (case AcroForm_Fields (pdf r) of
        None \<Rightarrow> r
      | Some flds \<Rightarrow> r\<lparr>form_fields := map form_field_info_of (zip [0 ..< length flds] flds)\<rparr>)"

definition annotation_info_of :: "nat \<Rightarrow> nat \<times> pdf_annot \<Rightarrow> AnnotationInfo option" where
  \<comment> \<open>the body of the inner loop of \<open>analyze_annotations\<close>\<close>
  "annotation_info_of page_num entry =
     (case entry of (i, annot) \<Rightarrow>
        let subtype = (case a_Subtype annot of None \<Rightarrow> [] | Some n \<Rightarrow> n)
        in if subtype = ''Link'' then None
           else let contents = (case a_Contents annot of None \<Rightarrow> [] | Some t \<Rightarrow> t)
                in Some \<lparr>an_annotation_type = subtype, an_subtype = subtype,
                         an_page_number = page_num, an_contents = contents,
                         an_has_alt_text = (contents \<noteq> [] \<or> a_has_Alt annot),
                         an_is_tagged = (a_StructParent annot \<noteq> None),
                         an_annot_ref = Some (page_num, i)\<rparr>)"

definition analyze_annotations :: "remediator \<Rightarrow> remediator" where
  "analyze_annotations r =
     r\<lparr>annotations :=
         concat (map (\<lambda>(page_num, page).
                        List.map_filter (annotation_info_of page_num)
                          (zip [0 ..< length (p_Annots page)] (p_Annots page)))
                     (enumerate1 (pages (pdf r))))\<rparr>"

definition should_be_tagged :: "AnnotationInfo \<Rightarrow> bool" where
  "should_be_tagged a =
     (an_subtype a \<in> set [''Text'', ''FreeText'', ''Stamp'', ''Ink'', ''Highlight'', ''Underline'',
                           ''StrikeOut'', ''Square'', ''Circle'', ''Polygon'', ''PolyLine'',
                           ''FileAttachment''])"

definition struct_type_map :: "string \<Rightarrow> string" where
  \<comment> \<open>\<open>struct_type_map.get(subtype, 'Annot')\<close>\<close>
  "struct_type_map subtype =
     (case map_of [(''Text'', ''Note''), (''FreeText'', ''Note''), (''Stamp'', ''Stamp''),
                   (''Ink'', ''Annot''), (''Highlight'', ''Span''), (''Underline'', ''Span''),
                   (''StrikeOut'', ''Span''), (''Square'', ''Figure''), (''Circle'', ''Figure''),
                   (''Polygon'', ''Figure''), (''PolyLine'', ''Figure''),
                   (''FileAttachment'', ''Annot'')] subtype of
        None \<Rightarrow> ''Annot'' | Some t \<Rightarrow> t)"

definition generate_summary_of_table :: "TableInfo \<Rightarrow> string" where
  \<comment> \<open>\<open>TableInfo.generate_summary\<close>\<close>
  "generate_summary_of_table t =
     (if tbl_summary t \<noteq> [] then tbl_summary t
      else let summary = ''Table with '' @ str_nat (tbl_rows t) @ '' rows and ''
                         @ str_nat (tbl_columns t) @ '' columns''
           in if tbl_has_header_row t \<and> tbl_has_header_column t
              then summary @ '' with row and column headers''
              else if tbl_has_header_row t then summary @ '' with column headers''
              else if tbl_has_header_column t then summary @ '' with row headers''
              else summary)"

section \<open>The structure tree and its parent tree\<close>

definition fresh_struct_elem :: "string \<Rightarrow> struct_elem" where
  \<comment> \<open>a new \<open>/StructElem\<close> dictionary with the structure type only\<close>
  "fresh_struct_elem s =
     \<lparr>se_S = s, se_P = False, se_Alt = None, se_T = None, se_BBox = None, se_Summary = None,
      se_K = []\<rparr>"

definition empty_struct_tree :: "bool \<Rightarrow> struct_tree_root" where
  \<comment> \<open>the \<open>/StructTreeRoot\<close> created when there is none (with a \<open>/RoleMap\<close> in \<open>tag_images\<close>)\<close>
  "empty_struct_tree role_map =
     \<lparr>st_K = Some [], st_ParentTree = Some \<lparr>pt_Nums = Some []\<rparr>, st_RoleMap = role_map\<rparr>"

definition fix_document_structure :: "remediator \<Rightarrow> remediator \<times> bool" where
  "fix_document_structure r =
     (let d = pdf r;
          fixed1 = (MarkInfo_Marked d \<noteq> Some True);
          d1 = d\<lparr>MarkInfo_Marked := Some True\<rparr>;
          fixed2 = (StructTreeRoot d1 = None);
          d2 = (if fixed2 then d1\<lparr>StructTreeRoot := Some (empty_struct_tree False)\<rparr> else d1)
      in (r\<lparr>pdf := d2\<rparr>, fixed1 \<or> fixed2))"

definition ensure_K :: "struct_tree_root \<Rightarrow> struct_tree_root" where
  \<comment> \<open>\<open>if '/K' not in struct_tree or not struct_tree.K: struct_tree['/K'] = Array([])\<close>\<close>
  "ensure_K t = (case st_K t of None \<Rightarrow> t\<lparr>st_K := Some []\<rparr> | Some k \<Rightarrow> t)"

definition ensure_parent_tree :: "struct_tree_root \<Rightarrow> struct_tree_root" where
  \<comment> \<open>the parent tree and its \<open>/Nums\<close> are created when absent (\<open>tag_images\<close>)\<close>
  "ensure_parent_tree t =
     (case st_ParentTree t of
        None \<Rightarrow> t\<lparr>st_ParentTree := Some \<lparr>pt_Nums = Some []\<rparr>\<rparr>
      | Some pt \<Rightarrow> (case pt_Nums pt of
                     None \<Rightarrow> t\<lparr>st_ParentTree := Some (pt\<lparr>pt_Nums := Some []\<rparr>)\<rparr>
                   | Some ns \<Rightarrow> t))"

definition the_K :: "struct_tree_root \<Rightarrow> struct_elem list" where
  "the_K t = (case st_K t of None \<Rightarrow> [] | Some k \<Rightarrow> k)"

definition the_Nums :: "struct_tree_root \<Rightarrow> nums_item list" where
  "the_Nums t =
     (case st_ParentTree t of
        None \<Rightarrow> []
      | Some pt \<Rightarrow> (case pt_Nums pt of None \<Rightarrow> [] | Some ns \<Rightarrow> ns))"

definition append_K :: "struct_elem \<Rightarrow> struct_tree_root \<Rightarrow> struct_tree_root" where
  \<comment> \<open>\<open>struct_elements.append(elem)\<close>\<close>
  "append_K e t = t\<lparr>st_K := Some (the_K t @ [e])\<rparr>"

definition link_parent_tree :: "struct_elem \<Rightarrow> struct_tree_root \<Rightarrow> struct_tree_root \<times> nat" where
  \<comment> \<open>the linking step of \<open>tag_form_fields\<close> and \<open>tag_annotations\<close>: the index is half the
      length of \<open>/Nums\<close>; without a \<open>/ParentTree\<close> the source appends to a dictionary of
      its own that it then drops, so the tree stays as it is and the index is 0\<close>
  "link_parent_tree e t =
     (case st_ParentTree t of
        None \<Rightarrow> (t, 0)
      | Some pt \<Rightarrow>
          let nums = (case pt_Nums pt of None \<Rightarrow> [] | Some ns \<Rightarrow> ns);
              struct_parent_idx = length nums div 2
          in (t\<lparr>st_ParentTree :=
                  Some (pt\<lparr>pt_Nums := Some (nums @ [NumInt (int struct_parent_idx), NumElem e])\<rparr>)\<rparr>,
              struct_parent_idx))"

definition append_Nums :: "nums_item list \<Rightarrow> struct_tree_root \<Rightarrow> struct_tree_root" where
  \<comment> \<open>\<open>parent_tree.Nums.append(...)\<close> on the tree's own parent tree\<close>
  "append_Nums items t =
     (case st_ParentTree t of
        None \<Rightarrow> t\<lparr>st_ParentTree := Some \<lparr>pt_Nums = Some items\<rparr>\<rparr>
      | Some pt \<Rightarrow> t\<lparr>st_ParentTree := Some (pt\<lparr>pt_Nums := Some (the_Nums t @ items)\<rparr>)\<rparr>)"

section \<open>Tagging images (\<open>tag_images\<close>)\<close>

definition find_image_info :: "ImageInfo list \<Rightarrow> nat \<Rightarrow> string \<Rightarrow> ImageInfo option" where
  "find_image_info imgs page_num obj_name =
     List.find (\<lambda>img. img_page_number img = page_num \<and> img_name img = obj_name) imgs"

definition tag_image ::
  "ImageInfo list \<Rightarrow> nat \<Rightarrow> string \<times> xobject \<Rightarrow> struct_tree_root \<times> nat \<Rightarrow> struct_tree_root \<times> nat" where
  \<comment> \<open>the body of the inner loop of \<open>tag_images\<close>, on the tree and \<open>tagged_count\<close>\<close>
  "tag_image imgs page_num entry st =
     (case entry of (obj_name, obj) \<Rightarrow> case st of (t, tagged_count) \<Rightarrow>
        if x_Subtype obj \<noteq> Some ''Image'' then st
        else case find_image_info imgs page_num obj_name of
               None \<Rightarrow> st
             | Some img_info \<Rightarrow>
                 let bbox = [0, 0, x_width obj, x_height obj];
                     struct_elem =
                       (if img_is_decorative img_info
                        then (fresh_struct_elem ''Artifact'')
                               \<lparr>se_P := True, se_Alt := Some [], se_BBox := Some bbox\<rparr>
                        else (fresh_struct_elem ''Figure'')
                               \<lparr>se_P := True, se_Alt := Some (img_alt_text img_info),
                                se_BBox := Some bbox,
                                se_T := Some (''Image on page '' @ str_nat page_num)\<rparr>);
                     struct_parent_idx = length (the_Nums t) div 2;
                     struct_elem1 = struct_elem\<lparr>se_K := [\<lparr>mcr_MCID = 0, mcr_Pg = page_num\<rparr>]\<rparr>;
                     t1 = append_Nums [NumInt (int struct_parent_idx), NumElem struct_elem1] t
                 in (append_K struct_elem1 t1, tagged_count + 1))"

definition tag_images :: "remediator \<Rightarrow> remediator \<times> nat" where
  "tag_images r =
     (let r1 = (if images r = [] then analyze_images r else r);
          r2 = (if annotations r1 = [] then analyze_annotations r1 else r1);
          d = pdf r2;
          t0 = (case StructTreeRoot d of None \<Rightarrow> empty_struct_tree True | Some t \<Rightarrow> t);
          t1 = ensure_parent_tree (ensure_K t0);
          st = fold (\<lambda>(page_num, page). fold (tag_image (images r2) page_num) (p_XObject page))
                 (enumerate1 (pages d)) (t1, 0)
      in (r2\<lparr>pdf := d\<lparr>StructTreeRoot := Some (fst st)\<rparr>,
              report := (report r2)\<lparr>images_tagged := snd st\<rparr>\<rparr>, snd st))"

section \<open>Marking untagged content (\<open>mark_unmarked_content_as_artifacts\<close>)\<close>

definition mark_entry ::
  "ImageInfo list \<Rightarrow> string set \<Rightarrow> nat \<Rightarrow> string \<times> xobject \<Rightarrow> struct_tree_root \<times> nat
   \<Rightarrow> struct_tree_root \<times> nat" where
  "mark_entry imgs tagged_images page_num entry st =
     (case entry of (obj_name, obj) \<Rightarrow> case st of (t, marked_count) \<Rightarrow>
        let obj_identifier = ''Image on page '' @ str_nat page_num
        in if obj_identifier \<notin> tagged_images
           then if x_Subtype obj = Some ''Image''
                then (case find_image_info imgs page_num obj_name of
                        Some img_info \<Rightarrow> st
                      | None \<Rightarrow>
                          (append_K ((fresh_struct_elem ''Artifact'')
                                       \<lparr>se_P := True, se_Alt := Some [],
                                        se_BBox := Some [0, 0, x_width obj, x_height obj]\<rparr>) t,
                           marked_count + 1))
                else if x_Subtype obj = Some ''Form''
                then (append_K ((fresh_struct_elem ''Artifact'')\<lparr>se_P := True, se_Alt := Some []\<rparr>) t,
                      marked_count + 1)
                else st
           else st)"

definition mark_unmarked_content_as_artifacts :: "remediator \<Rightarrow> remediator \<times> nat" where
  "mark_unmarked_content_as_artifacts r =
     (let r1 = (if StructTreeRoot (pdf r) = None then fst (fix_document_structure r) else r);
          d = pdf r1;
          t0 = (case StructTreeRoot d of None \<Rightarrow> empty_struct_tree False | Some t \<Rightarrow> t);
          t1 = ensure_K t0;
          tagged_images = set (map (\<lambda>e. case se_T e of None \<Rightarrow> [] | Some s \<Rightarrow> s)
                                   (filter (\<lambda>e. se_S e = ''Figure'') (the_K t1)));
          st = fold (\<lambda>(page_num, page).
                       fold (mark_entry (images r1) tagged_images page_num) (p_XObject page))
                 (enumerate1 (pages d)) (t1, 0)
      in (r1\<lparr>pdf := d\<lparr>StructTreeRoot := Some (fst st)\<rparr>,
              report := (report r1)\<lparr>artifacts_marked := snd st\<rparr>\<rparr>, snd st))"

section \<open>Tagging headings and tables (\<open>tag_headings\<close>, \<open>tag_tables\<close>)\<close>

text \<open>
  Both read \<open>Root.StructTreeRoot.K\<close> without creating it: when it is absent the access
  raises, the handler prints a warning and the function returns 0 with nothing changed.
\<close>

definition tag_headings :: "(nat \<times> string) list \<Rightarrow> remediator \<Rightarrow> remediator \<times> nat" where
  "tag_headings heading_map r =
     (if heading_map = [] then (r\<lparr>report := (report r)\<lparr>headings_tagged := 0\<rparr>\<rparr>, 0)
      else case StructTreeRoot (pdf r) of
             None \<Rightarrow> (r, 0)
           | Some t \<Rightarrow>
               (case st_K t of
                  None \<Rightarrow> (r, 0)
                | Some k \<Rightarrow>
                    let elems = map (\<lambda>(page_num, heading_text).
                                       (fresh_struct_elem ''H1'')\<lparr>se_T := Some heading_text\<rparr>)
                                    heading_map;
                        tagged_count = length heading_map
                    in (r\<lparr>pdf := (pdf r)\<lparr>StructTreeRoot := Some (t\<lparr>st_K := Some (k @ elems)\<rparr>)\<rparr>,
                          report := (report r)\<lparr>headings_tagged := tagged_count\<rparr>\<rparr>, tagged_count)))"

definition tag_tables :: "remediator \<Rightarrow> remediator \<times> nat" where
  "tag_tables r =
     (case StructTreeRoot (pdf r) of
        None \<Rightarrow> (r, 0)
      | Some t \<Rightarrow>
          (case st_K t of
             None \<Rightarrow> (r, 0)
           | Some k \<Rightarrow>
               let elems = map (\<lambda>tbl. (fresh_struct_elem ''Table'')
                                        \<lparr>se_Summary := Some (generate_summary_of_table tbl)\<rparr>)
                               (tables r);
                   tagged_count = length (tables r)
               in (r\<lparr>pdf := (pdf r)\<lparr>StructTreeRoot := Some (t\<lparr>st_K := Some (k @ elems)\<rparr>)\<rparr>,
                     report := (report r)\<lparr>tables_tagged := tagged_count\<rparr>\<rparr>, tagged_count)))"

section \<open>Tagging form fields (\<open>tag_form_fields\<close>)\<close>

definition tag_form_field ::
  "FormFieldInfo \<Rightarrow> form_field list \<times> struct_tree_root \<times> nat
   \<Rightarrow> form_field list \<times> struct_tree_root \<times> nat" where
  \<comment> \<open>the body of the loop, on \<open>/Fields\<close>, the tree and \<open>tagged_count\<close>\<close>
  "tag_form_field field_info st =
     (case st of (flds, t, tagged_count) \<Rightarrow>
        case ff_field_ref field_info of
          None \<Rightarrow> st
        | Some i \<Rightarrow>
            if length flds \<le> i then st
            else if field_is_empty (flds ! i) then st
            else
              let field = flds ! i;
                  field1 = (if \<not> ff_has_tooltip field_info
                            then field\<lparr>f_TU := Some
                                   (if ff_label_text field_info \<noteq> []
                                    then py_title (py_replace_char CHR ''_'' CHR '' '' (ff_label_text field_info))
                                    else ff_field_type field_info @ '' field'')\<rparr>
                            else field);
                  field2 = (if \<not> ff_has_label field_info
                            then field1\<lparr>f_T := Some
                                   (if ff_name field_info \<noteq> [] then ff_name field_info
                                    else ''Field_'' @ str_nat (tagged_count + 1))\<rparr>
                            else field1);
                  struct_elem = (fresh_struct_elem ''Form'')
                     \<lparr>se_T := Some (case f_TU field2 of
                                      Some tu \<Rightarrow> tu
                                    | None \<Rightarrow> (case f_T field2 of Some n \<Rightarrow> n | None \<Rightarrow> [])),
                      se_Alt := Some (case f_TU field2 of Some tu \<Rightarrow> tu | None \<Rightarrow> [])\<rparr>;
                  linked = (if f_StructParent field2 = None
                            then let res = link_parent_tree struct_elem t
                                 in (field2\<lparr>f_StructParent := Some (snd res)\<rparr>, fst res)
                            else (field2, t))
              in (flds[i := fst linked], append_K struct_elem (snd linked), tagged_count + 1))"

definition tag_form_fields :: "remediator \<Rightarrow> remediator \<times> nat" where
  "tag_form_fields r =
     (let r1 = (if form_fields r = [] then analyze_form_fields r else r)
      in if form_fields r1 = [] then (r1, 0)
         else
           let r2 = (if StructTreeRoot (pdf r1) = None then fst (fix_document_structure r1) else r1);
               d = pdf r2;
               t0 = (case StructTreeRoot d of None \<Rightarrow> empty_struct_tree False | Some t \<Rightarrow> t);
               t1 = ensure_K t0;
               flds0 = (case AcroForm_Fields d of None \<Rightarrow> [] | Some fs \<Rightarrow> fs);
               st = fold tag_form_field (form_fields r2) (flds0, t1, 0);
               flds1 = fst st; t2 = fst (snd st); tagged_count = snd (snd st)
           in (r2\<lparr>pdf := d\<lparr>StructTreeRoot := Some t2,
                                AcroForm_Fields := (case AcroForm_Fields d of
                                                      None \<Rightarrow> None | Some fs \<Rightarrow> Some flds1)\<rparr>,
                   report := (report r2)\<lparr>form_fields_tagged := tagged_count\<rparr>\<rparr>, tagged_count))"

section \<open>Tagging annotations (\<open>tag_annotations\<close>)\<close>

definition get_annot :: "pdf_page list \<Rightarrow> nat \<times> nat \<Rightarrow> pdf_annot option" where
  "get_annot ps ref =
     (case ref of (page_num, i) \<Rightarrow>
        if 1 \<le> page_num \<and> page_num \<le> length ps \<and> i < length (p_Annots (ps ! (page_num - 1)))
        then Some (p_Annots (ps ! (page_num - 1)) ! i) else None)"

definition set_annot :: "pdf_page list \<Rightarrow> nat \<times> nat \<Rightarrow> pdf_annot \<Rightarrow> pdf_page list" where
  "set_annot ps ref annot =
     (case ref of (page_num, i) \<Rightarrow>
        ps[page_num - 1 := (ps ! (page_num - 1))
             \<lparr>p_Annots := (p_Annots (ps ! (page_num - 1)))[i := annot]\<rparr>])"

definition tag_annotation ::
  "AnnotationInfo \<Rightarrow> pdf_page list \<times> struct_tree_root \<times> nat
   \<Rightarrow> AnnotationInfo \<times> pdf_page list \<times> struct_tree_root \<times> nat" where
  \<comment> \<open>the body of the loop, on the pages, the tree and \<open>tagged_count\<close>; the annotation
      record itself is updated too\<close>
  "tag_annotation annot_info st =
     (case st of (ps, t, tagged_count) \<Rightarrow>
        if \<not> should_be_tagged annot_info then (annot_info, st)
        else case an_annot_ref annot_info of
               None \<Rightarrow> (annot_info, st)
             | Some ref \<Rightarrow>
                 (case get_annot ps ref of
                    None \<Rightarrow> (annot_info, st)
                  | Some annot \<Rightarrow>
                      if annot_is_empty annot then (annot_info, st)
                      else
                      let default_contents = an_subtype annot_info @ '' annotation on page ''
                                             @ str_nat (an_page_number annot_info);
                          annot1 = (if \<not> an_has_alt_text annot_info
                                    then annot\<lparr>a_Contents := Some default_contents\<rparr> else annot);
                          annot_info1 = (if \<not> an_has_alt_text annot_info
                                         then annot_info\<lparr>an_contents := default_contents\<rparr>
                                         else annot_info);
                          struct_elem = (fresh_struct_elem (struct_type_map (an_subtype annot_info)))
                             \<lparr>se_Alt := Some (an_contents annot_info1),
                              se_T := Some (an_subtype annot_info @ '' annotation'')\<rparr>;
                          linked = (if a_StructParent annot1 = None
                                    then let res = link_parent_tree struct_elem t
                                         in (annot1\<lparr>a_StructParent := Some (snd res)\<rparr>, fst res)
                                    else (annot1, t))
                      in (annot_info1,
                          set_annot ps ref (fst linked), append_K struct_elem (snd linked),
                          tagged_count + 1)))"

fun tag_annotations_loop ::
  "AnnotationInfo list \<Rightarrow> pdf_page list \<times> struct_tree_root \<times> nat
   \<Rightarrow> AnnotationInfo list \<times> pdf_page list \<times> struct_tree_root \<times> nat" where
  "tag_annotations_loop [] st = ([], st)"
| "tag_annotations_loop (a # as) st =
     (let res = tag_annotation a st;
          rest = tag_annotations_loop as (snd res)
      in (fst res # fst rest, snd rest))"

definition tag_annotations :: "remediator \<Rightarrow> remediator \<times> nat" where
  "tag_annotations r =
     (let r1 = (if annotations r = [] then analyze_annotations r else r)
      in if annotations r1 = [] then (r1, 0)
         else
           let r2 = (if StructTreeRoot (pdf r1) = None then fst (fix_document_structure r1) else r1);
               d = pdf r2;
               t0 = (case StructTreeRoot d of None \<Rightarrow> empty_struct_tree False | Some t \<Rightarrow> t);
               t1 = ensure_K t0;
               res = tag_annotations_loop (annotations r2) (pages d, t1, 0);
               ps1 = fst (snd res); t2 = fst (snd (snd res)); tagged_count = snd (snd (snd res))
           in (r2\<lparr>pdf := d\<lparr>pages := ps1, StructTreeRoot := Some t2\<rparr>,
                   annotations := fst res,
                   report := (report r2)\<lparr>annotations_tagged := tagged_count\<rparr>\<rparr>, tagged_count))"

section \<open>A run of the structure-tree builder\<close>

datatype builder_op =
  FixStructure | TagImages | TagHeadings "(nat \<times> string) list" | TagTables
  | TagFormFields | TagAnnotations | MarkArtifacts

fun apply_op :: "builder_op \<Rightarrow> remediator \<Rightarrow> remediator" where
  "apply_op FixStructure r = fst (fix_document_structure r)"
| "apply_op TagImages r = fst (tag_images r)"
| "apply_op (TagHeadings heading_map) r = fst (tag_headings heading_map r)"
| "apply_op TagTables r = fst (tag_tables r)"
| "apply_op TagFormFields r = fst (tag_form_fields r)"
| "apply_op TagAnnotations r = fst (tag_annotations r)"
| "apply_op MarkArtifacts r = fst (mark_unmarked_content_as_artifacts r)"

definition run_ops :: "builder_op list \<Rightarrow> remediator \<Rightarrow> remediator" where
  "run_ops ops r = fold apply_op ops r"

definition remediate_structure :: "(nat \<times> string) list \<Rightarrow> remediator \<Rightarrow> remediator" where
  \<comment> \<open>steps 4 to 9.5 of \<open>remediate\<close>, the ones that build the structure tree\<close>
  "remediate_structure heading_map r =
     run_ops ([FixStructure, TagImages]
              @ (if heading_map \<noteq> [] then [TagHeadings heading_map] else [])
              @ [TagTables, TagFormFields, TagAnnotations, MarkArtifacts]) r"

definition struct_elems :: "remediator \<Rightarrow> struct_elem list" where
  \<comment> \<open>the children of the structure tree root, none when there is no tree\<close>
  "struct_elems r = (case StructTreeRoot (pdf r) of None \<Rightarrow> [] | Some t \<Rightarrow> the_K t)"

definition parent_tree_nums :: "remediator \<Rightarrow> nums_item list" where
  "parent_tree_nums r = (case StructTreeRoot (pdf r) of None \<Rightarrow> [] | Some t \<Rightarrow> the_Nums t)"

fun nums_keys :: "nums_item list \<Rightarrow> nums_item list" where
  \<comment> \<open>the entries at the even positions of \<open>/Nums\<close>, its keys\<close>
  "nums_keys (k # v # rest) = k # nums_keys rest"
| "nums_keys rest = rest"

section \<open>Predicates on the structure tree\<close>

definition artifact_alt_empty :: "struct_elem \<Rightarrow> bool" where
  \<comment> \<open>an \<open>Artifact\<close> node has an \<open>/Alt\<close> entry and it is the empty string\<close>
  "artifact_alt_empty e = (se_S e = ''Artifact'' \<longrightarrow> se_Alt e = Some [])"

definition nums_dense :: "nums_item list \<Rightarrow> bool" where
  \<comment> \<open>\<open>/Nums\<close> is a list of key and value pairs whose keys are 0, 1, 2, ... in this order\<close>
  "nums_dense ns =
     (even (length ns) \<and> nums_keys ns = map (\<lambda>i. NumInt (int i)) [0 ..< length ns div 2])"

definition tree_of :: "remediator \<Rightarrow> struct_tree_root" where
  \<comment> \<open>the structure tree root, an empty one when the document has none\<close>
  "tree_of r = (case StructTreeRoot (pdf r) of None \<Rightarrow> empty_struct_tree False | Some t \<Rightarrow> t)"

definition tree_step :: "struct_tree_root \<Rightarrow> struct_tree_root \<Rightarrow> bool" where
  \<comment> \<open>from \<open>t\<close> to \<open>t'\<close> nodes and parent tree entries are only added at the end, every added
      \<open>Artifact\<close> has an empty \<open>/Alt\<close>, and dense keys stay dense\<close>
  "tree_step t t' =
     ((\<exists>new. the_K t' = the_K t @ new \<and> list_all artifact_alt_empty new)
      \<and> (\<exists>more. the_Nums t' = the_Nums t @ more)
      \<and> (nums_dense (the_Nums t) \<longrightarrow> nums_dense (the_Nums t')))"

section \<open>Properties of the alt-text validator\<close>

lemma validate_examples:
  "\<not> validate_alt_text_for_content ''image'' ''Figure''"
  "\<not> validate_alt_text_for_content '''' ''Figure''"
  "validate_alt_text_for_content ''Quarterly revenue chart showing 25% growth'' ''Figure''"
  by (simp_all add: validate_alt_text_for_content_def py_strip_def py_lower_def
      py_lower_char_def py_isspace_def generic_alt_phrases_def startswith_def)

text \<open>
  C2 (as the claim states it, refuted): the claim has the validator accept the empty text
  for the decorative role. The validator never looks at its role argument, and the empty
  text is rejected for \<open>Artifact\<close> as for every other role.
\<close>

theorem validate_empty_artifact_rejected:
  "\<not> validate_alt_text_for_content '''' ''Artifact''"
  by (simp add: validate_alt_text_for_content_def)

text \<open>
  C2 (amended): the verdict of the alt-text validator does not depend on the role, and an
  empty or whitespace-only text is rejected for every role, the decorative one included.
\<close>

theorem validate_role_independent:
  "validate_alt_text_for_content t r = validate_alt_text_for_content t r'
   \<and> (py_strip t = [] \<longrightarrow> \<not> validate_alt_text_for_content t r)"
  by (simp add: validate_alt_text_for_content_def)

theorem validate_role_independent_witness:
  "validate_alt_text_for_content ''   '' ''Artifact'' = validate_alt_text_for_content ''   '' ''Figure''
   \<and> py_strip ''   '' = [] \<and> \<not> validate_alt_text_for_content ''   '' ''Artifact''"
proof -
  have e: "py_strip ''   '' = []"
    by (simp add: py_strip_def py_isspace_def)
  from validate_role_independent [of "''   ''" "''Artifact''" "''Figure''"] e
  show ?thesis by blast
qed

section \<open>Properties of the heading normalizer\<close>

lemma clamp_levels_idem: "clamp_levels l (clamp_levels l hs) = clamp_levels l hs"
  by (induction hs arbitrary: l) auto

lemma clamp_levels_no_gap: "no_upward_gap (l # map h_level (clamp_levels l hs))"
proof (induction hs arbitrary: l)
  case Nil
  show ?case by simp
next
  case (Cons h hs)
  show ?case
  proof (cases "h_level h > l + 1")
    case True
    with Cons.IH [of "l + 1"] show ?thesis by simp
  next
    case False
    with Cons.IH [of "h_level h"] show ?thesis by simp
  qed
qed

lemma no_upward_gap_tl: "no_upward_gap (a # r) \<Longrightarrow> no_upward_gap r"
  by (cases r) auto

lemma clamp_levels_first: "clamp_levels l hs = h # r \<Longrightarrow> h_level h \<le> l + 1"
  by (cases hs) (auto split: if_splits)

lemma fix_heading_hierarchy_clamped:
  "\<exists>hs. doc_headings (fix_heading_hierarchy d) = clamp_levels 1 hs"
proof (cases "doc_headings d")
  case Nil
  then have "doc_headings (fix_heading_hierarchy d) = []
      \<or> doc_headings (fix_heading_hierarchy d) = [new_h1]"
    by (auto simp: fix_heading_hierarchy_def main_insert_h1_def split: option.splits)
  moreover have "clamp_levels 1 [] = []" "clamp_levels 1 [new_h1] = [new_h1]"
    by (simp_all add: new_h1_def)
  ultimately show ?thesis by metis
next
  case (Cons f rest)
  then show ?thesis
    by (auto simp: fix_heading_hierarchy_def Let_def simp del: clamp_levels.simps)
qed

lemma fix_heading_hierarchy_first_h1:
  "h1_ensured d \<Longrightarrow> \<exists>r. resolved_levels (fix_heading_hierarchy d) = 1 # r"
  by (auto simp: h1_ensured_def fix_heading_hierarchy_def resolved_levels_def
      main_insert_h1_def Let_def new_h1_def split: list.splits option.splits)

text \<open>
  C5 (as the claim states it, refuted): a document without a \<open>main\<close> element whose headings
  are H3, H4, H1 is normalized to H2, H3, H1. The first resolved level is 2, and the
  levels 3 and 1 stand next to each other.
\<close>

theorem fix_heading_hierarchy_no_main_counterexample:
  "resolved_levels (fix_heading_hierarchy
      \<lparr>doc_headings = [\<lparr>h_level = 3, h_text = ''Intro''\<rparr>, \<lparr>h_level = 4, h_text = ''Scope''\<rparr>,
                       \<lparr>h_level = 1, h_text = ''Title''\<rparr>],
       doc_main = None\<rparr>) = [2, 3, 1]
   \<and> hd [2, 3, 1 :: nat] \<noteq> 1 \<and> \<not> levels_within_one [2, 3, 1]"
  by (simp add: fix_heading_hierarchy_def resolved_levels_def main_insert_h1_def)

text \<open>
  C5 (amended): after the heading normalizer has run, no resolved level is more than one
  above the level before it (a level above lastLevel+1 is clamped to lastLevel+1; a level
  may drop by any amount), the first resolved level is at most 2, and it is 1 on every
  document where the first heading is H1 already, or there is a \<open>main\<close> element and the
  first heading's text is shorter than 100 characters, or there is a \<open>main\<close> element that
  no heading precedes.
\<close>

theorem fix_heading_hierarchy_levels:
  "no_upward_gap (resolved_levels (fix_heading_hierarchy d))
   \<and> (resolved_levels (fix_heading_hierarchy d) \<noteq> []
        \<longrightarrow> hd (resolved_levels (fix_heading_hierarchy d)) \<le> 2)
   \<and> (h1_ensured d \<longrightarrow> (\<exists>r. resolved_levels (fix_heading_hierarchy d) = 1 # r))"
proof -
  from fix_heading_hierarchy_clamped [of d] obtain hs where
    hs: "doc_headings (fix_heading_hierarchy d) = clamp_levels 1 hs" by blast
  have gap: "no_upward_gap (resolved_levels (fix_heading_hierarchy d))"
    using no_upward_gap_tl [OF clamp_levels_no_gap [of 1 hs]] hs
    by (simp add: resolved_levels_def)
  have first: "hd (resolved_levels (fix_heading_hierarchy d)) \<le> 2"
    if "resolved_levels (fix_heading_hierarchy d) \<noteq> []"
  proof -
    from that hs obtain h r where hr: "clamp_levels 1 hs = h # r"
      by (cases "clamp_levels 1 hs") (auto simp: resolved_levels_def)
    from clamp_levels_first [OF hr] hs hr show ?thesis
      by (simp add: resolved_levels_def)
  qed
  from gap first fix_heading_hierarchy_first_h1 [of d] show ?thesis by blast
qed

theorem fix_heading_hierarchy_levels_witness:
  "h1_ensured \<lparr>doc_headings = [\<lparr>h_level = 2, h_text = ''Intro''\<rparr>, \<lparr>h_level = 4, h_text = ''Scope''\<rparr>],
               doc_main = Some 0\<rparr>
   \<and> resolved_levels (fix_heading_hierarchy
        \<lparr>doc_headings = [\<lparr>h_level = 2, h_text = ''Intro''\<rparr>, \<lparr>h_level = 4, h_text = ''Scope''\<rparr>],
         doc_main = Some 0\<rparr>) = [1, 2]
   \<and> no_upward_gap [1, 2]"
proof -
  have r: "resolved_levels (fix_heading_hierarchy
        \<lparr>doc_headings = [\<lparr>h_level = 2, h_text = ''Intro''\<rparr>, \<lparr>h_level = 4, h_text = ''Scope''\<rparr>],
         doc_main = Some 0\<rparr>) = [1, 2]"
    by (simp add: fix_heading_hierarchy_def resolved_levels_def)
  have e: "h1_ensured \<lparr>doc_headings = [\<lparr>h_level = 2, h_text = ''Intro''\<rparr>, \<lparr>h_level = 4, h_text = ''Scope''\<rparr>],
               doc_main = Some 0\<rparr>"
    by (simp add: h1_ensured_def)
  from fix_heading_hierarchy_levels
         [of "\<lparr>doc_headings = [\<lparr>h_level = 2, h_text = ''Intro''\<rparr>, \<lparr>h_level = 4, h_text = ''Scope''\<rparr>],
               doc_main = Some 0\<rparr>"] r e
  show ?thesis by simp
qed

text \<open>
  C6 (the code does not do what the claim says): a document whose only heading is an H2 of
  100 characters that starts before \<open>main\<close> gets a new H1 inside \<open>main\<close> on the first
  run and another one on the second run. The step of the source headed ``Ensure first
  heading is h1'' puts the new H1 behind that heading, so the first heading is the H2 after
  every run and every run takes the same branch again.
\<close>

theorem fix_heading_hierarchy_not_idempotent:
  "resolved_levels (fix_heading_hierarchy
      \<lparr>doc_headings = [\<lparr>h_level = 2, h_text = replicate 100 CHR ''x''\<rparr>], doc_main = Some 1\<rparr>)
     = [2, 1]
   \<and> resolved_levels (fix_heading_hierarchy (fix_heading_hierarchy
      \<lparr>doc_headings = [\<lparr>h_level = 2, h_text = replicate 100 CHR ''x''\<rparr>], doc_main = Some 1\<rparr>))
     = [2, 1, 1]"
  by (simp add: fix_heading_hierarchy_def resolved_levels_def main_insert_h1_def new_h1_def)

text \<open>
  On all other documents a second run changes no level and inserts no heading: the
  normalizer is idempotent unless the first heading is not H1, has a text of 100 characters
  or more and starts before the \<open>main\<close> element.
\<close>

lemma fix_heading_hierarchy_idempotent:
  "reinsertion_free d \<Longrightarrow>
   fix_heading_hierarchy (fix_heading_hierarchy d) = fix_heading_hierarchy d"
  by (auto simp: reinsertion_free_def fix_heading_hierarchy_def main_insert_h1_def Let_def
      new_h1_def clamp_levels_idem split: list.splits option.splits if_splits)

lemma fix_heading_hierarchy_idempotent_example:
  "reinsertion_free \<lparr>doc_headings = [\<lparr>h_level = 3, h_text = ''Intro''\<rparr>,
                                     \<lparr>h_level = 5, h_text = ''Scope''\<rparr>], doc_main = Some 0\<rparr>
   \<and> resolved_levels (fix_heading_hierarchy
        \<lparr>doc_headings = [\<lparr>h_level = 3, h_text = ''Intro''\<rparr>,
                          \<lparr>h_level = 5, h_text = ''Scope''\<rparr>], doc_main = Some 0\<rparr>) = [1, 2]
   \<and> fix_heading_hierarchy (fix_heading_hierarchy
        \<lparr>doc_headings = [\<lparr>h_level = 3, h_text = ''Intro''\<rparr>,
                          \<lparr>h_level = 5, h_text = ''Scope''\<rparr>], doc_main = Some 0\<rparr>)
     = fix_heading_hierarchy
        \<lparr>doc_headings = [\<lparr>h_level = 3, h_text = ''Intro''\<rparr>,
                          \<lparr>h_level = 5, h_text = ''Scope''\<rparr>], doc_main = Some 0\<rparr>"
proof -
  have e: "reinsertion_free \<lparr>doc_headings = [\<lparr>h_level = 3, h_text = ''Intro''\<rparr>,
                                     \<lparr>h_level = 5, h_text = ''Scope''\<rparr>], doc_main = Some 0\<rparr>"
    by (simp add: reinsertion_free_def)
  have l: "resolved_levels (fix_heading_hierarchy
        \<lparr>doc_headings = [\<lparr>h_level = 3, h_text = ''Intro''\<rparr>,
                          \<lparr>h_level = 5, h_text = ''Scope''\<rparr>], doc_main = Some 0\<rparr>) = [1, 2]"
    by (simp add: fix_heading_hierarchy_def resolved_levels_def)
  from fix_heading_hierarchy_idempotent [OF e] e l show ?thesis by simp
qed

lemma str_nat_1_3: "str_nat (Suc 0) = ''1''" "str_nat 3 = ''3''"
  by code_simp+

text \<open>
  C7 (as the claim states it, refuted): the headings H1, H3, H2 are not resolved to
  H1, H2, H3.
\<close>

theorem fix_heading_hierarchy_h1_h3_h2_counterexample:
  "resolved_levels (fix_heading_hierarchy
      \<lparr>doc_headings = [\<lparr>h_level = 1, h_text = ''Title''\<rparr>, \<lparr>h_level = 3, h_text = ''Scope''\<rparr>,
                       \<lparr>h_level = 2, h_text = ''Intro''\<rparr>],
       doc_main = Some 0\<rparr>) \<noteq> [1, 2, 3]"
  by (simp add: fix_heading_hierarchy_def resolved_levels_def)

text \<open>
  C7 (amended): normalizing a document whose headings are H1, H3, H2 gives the resolved
  levels H1, H2, H2 (the H3 is clamped to H2, the H2 is left as it is), and the compliance
  checker reports on the original headings a ``Skipped Heading Levels'' issue naming the
  jump from h1 to h3.
\<close>

theorem fix_heading_hierarchy_h1_h3_h2:
  "resolved_levels (fix_heading_hierarchy
      \<lparr>doc_headings = [\<lparr>h_level = 1, h_text = a\<rparr>, \<lparr>h_level = 3, h_text = b\<rparr>,
                       \<lparr>h_level = 2, h_text = c\<rparr>],
       doc_main = m\<rparr>) = [1, 2, 2]
   \<and> (\<exists>i \<in> set (issues (check_heading_hierarchy
          \<lparr>doc_headings = [\<lparr>h_level = 1, h_text = a\<rparr>, \<lparr>h_level = 3, h_text = b\<rparr>,
                           \<lparr>h_level = 2, h_text = c\<rparr>],
           doc_main = m\<rparr>
          \<lparr>issues = [], warnings = [], passed_checks = []\<rparr>)).
        i_title i = ''Skipped Heading Levels'' \<and> i_type i = ''skipped_heading_levels''
        \<and> i_detail i = {''h1 to h3''})"
  by (simp add: fix_heading_hierarchy_def resolved_levels_def check_heading_hierarchy_def
      add_issue_def add_passed_check_def str_nat_1_3 Let_def)

theorem fix_heading_hierarchy_h1_h3_h2_witness:
  "resolved_levels (fix_heading_hierarchy
      \<lparr>doc_headings = [\<lparr>h_level = 1, h_text = ''Title''\<rparr>, \<lparr>h_level = 3, h_text = ''Scope''\<rparr>,
                       \<lparr>h_level = 2, h_text = ''Intro''\<rparr>],
       doc_main = Some 0\<rparr>) = [1, 2, 2]"
  using fix_heading_hierarchy_h1_h3_h2 [of "''Title''" "''Scope''" "''Intro''" "Some 0"]
  by simp

section \<open>Properties of the compliance score\<close>

text \<open>
  Rounding to 53 bits moves a positive value by at most the fraction \<open>2\<^sup>-\<^sup>5\<^sup>3\<close> of it.
\<close>

lemma rne_error: "\<bar>of_int (rne z) - z\<bar> \<le> 1 / 2"
proof -
  have "of_int \<lfloor>z\<rfloor> \<le> z" "z < of_int \<lfloor>z\<rfloor> + 1" by linarith+
  then show ?thesis
    by (auto simp: rne_def Let_def)
qed

lemma ilog2_lower: "0 < x \<Longrightarrow> 2 powi (ilog2 x) \<le> x"
proof (cases "1 \<le> x")
  case True
  define n where "n = nat \<lfloor>x\<rfloor>"
  from True have n: "0 < n" by (simp add: n_def)
  from floorlog_bounds [OF n, of 2] have b: "2 ^ (floorlog 2 n - 1) \<le> n" by simp
  from n have fl: "floorlog 2 n \<ge> 1" by (simp add: floorlog_def)
  have "ilog2 x = int (floorlog 2 n - 1)" using True fl by (simp add: ilog2_def n_def)
  then have "2 powi (ilog2 x) = (2::rat) ^ (floorlog 2 n - 1)" by simp
  also have "\<dots> = of_nat (2 ^ (floorlog 2 n - 1))" by simp
  also have "\<dots> \<le> of_nat n" using b by (simp only: of_nat_le_iff)
  also have "\<dots> \<le> x" using True by (simp add: n_def)
  finally show ?thesis .
next
  case False
  assume pos: "0 < x"
  define c where "c = \<lceil>1 / x\<rceil>"
  define n where "n = nat (c - 1)"
  define L where "L = floorlog 2 n"
  from False pos have "1 / x > 1" by simp
  then have c: "c \<ge> 2" unfolding c_def by linarith
  then have n: "0 < n" by (simp add: n_def)
  from floorlog_bounds [OF n, of 2] have b: "n < 2 ^ L" by (simp add: L_def)
  then have "n + 1 \<le> 2 ^ L" by simp
  then have "(of_nat (n + 1) :: rat) \<le> of_nat (2 ^ L)" by (simp only: of_nat_le_iff)
  moreover have "1 / x \<le> of_int c" unfolding c_def by linarith
  moreover have "of_int c = (of_nat (n + 1) :: rat)"
  proof -
    have "int (n + 1) = c" using c by (simp add: n_def)
    then have "(of_int c :: rat) = of_int (int (n + 1))" by simp
    then show ?thesis by (simp only: of_int_of_nat_eq)
  qed
  ultimately have "1 / x \<le> 2 ^ L" by simp
  then have "1 / 2 ^ L \<le> x" using pos
    by (simp add: field_simps)
  moreover have "ilog2 x = - int L" using False by (simp add: ilog2_def n_def L_def c_def)
  ultimately show ?thesis by (simp add: power_int_minus_divide)
qed

lemma round53_error:
  assumes "0 < x"
  shows "\<bar>round53 x - x\<bar> \<le> x / 2 ^ 53"
proof -
  define u :: rat where "u = 2 powi (ilog2 x - 52)"
  have u: "0 < u" by (simp add: u_def)
  have r: "round53 x = of_int (rne (x / u)) * u"
    using assms by (simp add: round53_def u_def Let_def)
  have "u = 2 powi (ilog2 x) / 2 ^ 52"
    by (simp add: u_def power_int_diff)
  then have ux: "u \<le> x / 2 ^ 52" using ilog2_lower [OF assms]
    by (simp add: divide_right_mono)
  have "round53 x - x = (of_int (rne (x / u)) - x / u) * u"
    using u by (simp add: r field_simps)
  then have "\<bar>round53 x - x\<bar> = \<bar>of_int (rne (x / u)) - x / u\<bar> * u"
    using u by (simp add: abs_mult)
  also have "\<dots> \<le> (1 / 2) * u"
    using rne_error [of "x / u"] u by (simp add: mult_right_mono)
  also have "\<dots> \<le> x / 2 ^ 53" using ux by simp
  finally show ?thesis .
qed


lemma round53_zero: "round53 0 = 0"
  by (simp add: round53_def)

lemma round53_nonneg: "0 \<le> x \<Longrightarrow> 0 \<le> round53 x"
proof (cases "x = 0")
  case True
  then show ?thesis by (simp add: round53_zero)
next
  case False
  assume "0 \<le> x"
  with False have pos: "0 < x" by simp
  have "x / 2 ^ 53 \<le> x" using pos by (simp add: field_simps)
  with round53_error [OF pos] show ?thesis by linarith
qed

lemma score_float_close:
  fixes p t :: nat
  assumes t: "0 < t" and pt: "p \<le> t"
  shows "\<bar>fmul (fdiv (int p) (int t)) 100 - 100 * of_nat p / of_nat t\<bar> \<le> 300 / 2 ^ 53"
proof (cases "p = 0")
  case True
  then show ?thesis by (simp add: fmul_def fdiv_def round53_zero)
next
  case False
  define eps :: rat where "eps = 1 / 2 ^ 53"
  define q :: rat where "q = of_nat p / of_nat t"
  define x1 where "x1 = round53 q"
  define y where "y = round53 (x1 * 100)"
  have eps: "0 < eps" "eps \<le> 1" by (simp_all add: eps_def)
  have q0: "0 < q" using False t by (simp add: q_def)
  have q1: "q \<le> 1" using pt t by (simp add: q_def)
  have "\<bar>x1 - q\<bar> \<le> q / 2 ^ 53" unfolding x1_def by (rule round53_error [OF q0])
  then have e1: "\<bar>x1 - q\<bar> \<le> q * eps" by (simp add: eps_def)
  have qe: "q * eps \<le> eps" using q1 eps by (simp add: mult_left_le_one_le)
  have "q * eps < q * 1" using q0 by (simp add: eps_def)
  then have qe': "q * eps < q" by simp
  from e1 have b1: "x1 - q \<le> q * eps" "q - x1 \<le> q * eps" by (simp_all add: abs_le_iff)
  from b1 qe' have x1pos: "0 < x1" by linarith
  from b1 qe q1 eps have x1le: "x1 \<le> 2" by linarith
  have "\<bar>y - x1 * 100\<bar> \<le> (x1 * 100) / 2 ^ 53"
    unfolding y_def by (rule round53_error) (use x1pos in simp)
  then have e2: "\<bar>y - x1 * 100\<bar> \<le> 100 * (x1 * eps)" by (simp add: eps_def)
  have "x1 * eps \<le> 2 * eps" using x1le eps by (simp add: mult_right_mono)
  with e2 have b2: "y - x1 * 100 \<le> 200 * eps" "x1 * 100 - y \<le> 200 * eps"
    by (simp_all add: abs_le_iff)
  from b1 b2 qe have "y - 100 * q \<le> 300 * eps" "100 * q - y \<le> 300 * eps" by linarith+
  then have "\<bar>y - 100 * q\<bar> \<le> 300 * eps" by (simp add: abs_le_iff)
  moreover have "fmul (fdiv (int p) (int t)) 100 = y"
    by (simp add: fmul_def fdiv_def y_def x1_def q_def)
  moreover have "100 * of_nat p / of_nat t = 100 * q" by (simp add: q_def)
  ultimately show ?thesis by (simp add: eps_def)
qed

lemma score_bounds:
  fixes p t :: nat
  assumes t: "0 < t" and pt: "p \<le> t" and small: "t < 2 ^ 44"
  defines "s \<equiv> py_int (fmul (fdiv (int p) (int t)) 100)"
  shows "s \<le> int ((100 * p) div t)" and "int ((100 * p) div t) - 1 \<le> s"
    and "\<not> t dvd 100 * p \<Longrightarrow> s = int ((100 * p) div t)"
proof -
  define y where "y = fmul (fdiv (int p) (int t)) 100"
  define r :: rat where "r = 100 * of_nat p / of_nat t"
  define k where "k = (100 * p) div t"
  define m where "m = (100 * p) mod t"
  have y0: "0 \<le> y" unfolding y_def fmul_def fdiv_def
    by (intro round53_nonneg mult_nonneg_nonneg) simp_all
  then have s: "s = \<lfloor>y\<rfloor>" by (simp add: s_def y_def py_int_def)
  have close: "\<bar>y - r\<bar> \<le> 300 / 2 ^ 53" unfolding y_def r_def by (rule score_float_close [OF t pt])
  have tt: "(of_nat t :: rat) < 2 ^ 44" using small
    by (metis of_nat_less_iff of_nat_numeral of_nat_power)
  have tpos: "(0::rat) < of_nat t" using t by simp
  have "(300::rat) / 2 ^ 53 < 1 / 2 ^ 44" by simp
  also have "\<dots> < 1 / of_nat t" using tt tpos by (simp add: field_simps)
  finally have d: "\<bar>y - r\<bar> < 1 / of_nat t" using close by linarith
  have "100 * p = k * t + m" by (simp add: k_def m_def)
  then have "(of_nat (100 * p) :: rat) = of_nat (k * t + m)" by simp
  then have r: "r = of_nat k + of_nat m / of_nat t" using tpos
    by (simp add: r_def field_simps)
  have mt: "m < t" using t by (simp add: m_def)
  have inv1: "1 / (of_nat t :: rat) \<le> 1" using t by simp
  have mfrac: "of_nat m / (of_nat t :: rat) \<le> 1 - 1 / of_nat t"
  proof -
    from mt have "m + 1 \<le> t" by simp
    then have "(of_nat (m + 1) :: rat) \<le> of_nat t" by (simp only: of_nat_le_iff)
    then show ?thesis using tpos by (simp add: field_simps)
  qed
  have mnn: "0 \<le> of_nat m / (of_nat t :: rat)" by simp
  from d have d2: "y - r < 1 / of_nat t" "r - y < 1 / of_nat t" by (simp_all add: abs_less_iff)
  have "y < of_nat k + 1" using d2 r mfrac by linarith
  then have "y < of_int (int k + 1)" by simp
  then have up: "\<lfloor>y\<rfloor> < int k + 1" by (simp only: floor_less_iff)
  then show "s \<le> int ((100 * p) div t)" by (simp add: s k_def)
  have "of_nat k - 1 < y" using d2 r mnn inv1 by linarith
  then have "of_int (int k - 1) \<le> y" by simp
  then have "int k - 1 \<le> \<lfloor>y\<rfloor>" by (simp only: le_floor_iff)
  then show "int ((100 * p) div t) - 1 \<le> s" by (simp add: s k_def)
  assume "\<not> t dvd 100 * p"
  then have "m \<noteq> 0" by (auto simp: m_def dvd_eq_mod_eq_0)
  then have "1 \<le> m" by simp
  then have "(of_nat 1 :: rat) \<le> of_nat m" by (simp only: of_nat_le_iff)
  then have "1 / (of_nat t :: rat) \<le> of_nat m / of_nat t" using tpos by (simp add: divide_right_mono)
  then have "of_nat k < y" using d2 r by linarith
  then have "of_int (int k) \<le> y" by simp
  then have "int k \<le> \<lfloor>y\<rfloor>" by (simp only: le_floor_iff)
  with up show "s = int ((100 * p) div t)" by (simp add: s k_def)
qed

lemma compliance_score_29_of_50:
  "compliance_score (generate_report
      \<lparr>issues = replicate 21 \<lparr>i_guideline = ''1.1.1'', i_title = ''t'', i_description = ''d'',
                                i_detail = {}, i_severity = ''error'', i_level = ''A'', i_type = ''u''\<rparr>,
       warnings = [],
       passed_checks = replicate 29 \<lparr>pc_guideline = ''1.1.1'', pc_title = ''t''\<rparr>\<rparr>) = 57"
  by code_simp

text \<open>
  C4 (as the claim states it, refuted): with 2 passed checks, 1 issue and no warning the
  score is 66, while 100 * 2 / 3 rounded to the nearest integer is 67.
\<close>

theorem compliance_score_not_rounded:
  "compliance_score (generate_report
      \<lparr>issues = [\<lparr>i_guideline = ''1.1.1'', i_title = ''t'', i_description = ''d'',
                  i_detail = {}, i_severity = ''error'', i_level = ''A'', i_type = ''u''\<rparr>],
       warnings = [],
       passed_checks = replicate 2 \<lparr>pc_guideline = ''1.1.1'', pc_title = ''t''\<rparr>\<rparr>) = 66
   \<and> round (100 * 2 / (2 + 1 + 0) :: rat) = 67"
  by code_simp

text \<open>
  C4 (amended): for every report with \<open>p\<close> passed checks, \<open>i\<close> issues and \<open>w\<close> warnings,
  not all zero (and fewer than \<open>2\<^sup>4\<^sup>4\<close> together), the compliance score is
  \<open>100 * p / (p + i + w)\<close> cut down to an integer, not rounded to the nearest one: it equals
  \<open>\<lfloor>100 * p / (p + i + w)\<rfloor>\<close> whenever \<open>p + i + w\<close> does not divide \<open>100 * p\<close>, and
  otherwise it is that quotient or, where the float product falls just short of it, one
  less.
\<close>

theorem compliance_score_truncated:
  assumes "0 < length (issues c) + length (warnings c) + length (passed_checks c)"
    and "length (issues c) + length (warnings c) + length (passed_checks c) < 2 ^ 44"
  shows "compliance_score (generate_report c)
           \<le> int ((100 * length (passed_checks c))
                   div (length (issues c) + length (warnings c) + length (passed_checks c)))
       \<and> int ((100 * length (passed_checks c))
                   div (length (issues c) + length (warnings c) + length (passed_checks c))) - 1
           \<le> compliance_score (generate_report c)
       \<and> (\<not> (length (issues c) + length (warnings c) + length (passed_checks c))
               dvd 100 * length (passed_checks c)
            \<longrightarrow> compliance_score (generate_report c)
                 = int ((100 * length (passed_checks c))
                   div (length (issues c) + length (warnings c) + length (passed_checks c))))"
proof -
  define p where "p = length (passed_checks c)"
  define t where "t = length (issues c) + length (warnings c) + length (passed_checks c)"
  have t: "0 < t" "t < 2 ^ 44" and pt: "p \<le> t"
    using assms by (simp_all add: p_def t_def)
  have s: "compliance_score (generate_report c) = py_int (fmul (fdiv (int p) (int t)) 100)"
    using t by (simp add: generate_report_def Let_def p_def t_def)
  from score_bounds [OF t(1) pt t(2)] show ?thesis
    unfolding s by (simp add: p_def t_def)
qed

theorem compliance_score_truncated_witness:
  "compliance_score (generate_report
      \<lparr>issues = replicate 2 \<lparr>i_guideline = ''1.1.1'', i_title = ''t'', i_description = ''d'',
                               i_detail = {}, i_severity = ''error'', i_level = ''A'', i_type = ''u''\<rparr>,
       warnings = [],
       passed_checks = replicate 8 \<lparr>pc_guideline = ''1.1.1'', pc_title = ''t''\<rparr>\<rparr>) = 80
   \<and> compliance_score (generate_report
      \<lparr>issues = replicate 2 \<lparr>i_guideline = ''1.1.1'', i_title = ''t'', i_description = ''d'',
                               i_detail = {}, i_severity = ''error'', i_level = ''A'', i_type = ''u''\<rparr>,
       warnings = [],
       passed_checks = replicate 8 \<lparr>pc_guideline = ''1.1.1'', pc_title = ''t''\<rparr>\<rparr>)
     \<le> int ((100 * 8) div (2 + 0 + 8))"
proof -
  let ?c = "\<lparr>issues = replicate 2 \<lparr>i_guideline = ''1.1.1'', i_title = ''t'', i_description = ''d'',
                               i_detail = {}, i_severity = ''error'', i_level = ''A'', i_type = ''u''\<rparr>,
       warnings = [],
       passed_checks = replicate 8 \<lparr>pc_guideline = ''1.1.1'', pc_title = ''t''\<rparr>\<rparr>"
  have e: "compliance_score (generate_report ?c) = 80"
    by code_simp
  have h1: "0 < length (issues ?c) + length (warnings ?c) + length (passed_checks ?c)"
    by simp
  have h2: "length (issues ?c) + length (warnings ?c) + length (passed_checks ?c) < 2 ^ 44"
    by simp
  from compliance_score_truncated [OF h1 h2] e show ?thesis by simp
qed



section \<open>Rounding to 53 bits keeps the order\<close>

lemma rne_bounds: "\<lfloor>z\<rfloor> \<le> rne z" "rne z \<le> \<lfloor>z\<rfloor> + 1"
  by (simp_all add: rne_def Let_def)

lemma rne_mono:
  assumes "z \<le> z'"
  shows "rne z \<le> rne z'"
proof (cases "\<lfloor>z\<rfloor> = \<lfloor>z'\<rfloor>")
  case True
  with assms have "z - of_int \<lfloor>z\<rfloor> \<le> z' - of_int \<lfloor>z'\<rfloor>" by simp
  then show ?thesis
    using True by (auto simp: rne_def Let_def)
next
  case False
  with assms have "\<lfloor>z\<rfloor> < \<lfloor>z'\<rfloor>" by (simp add: floor_mono order_less_le)
  with rne_bounds(2) [of z] rne_bounds(1) [of z'] show ?thesis by linarith
qed

lemma rne_of_int: "rne (of_int n) = n"
  by (simp add: rne_def)

lemma ilog2_upper: "0 < x \<Longrightarrow> x < 2 powi (ilog2 x + 1)"
proof (cases "1 \<le> x")
  case True
  define n where "n = nat \<lfloor>x\<rfloor>"
  from True have n: "0 < n" by (simp add: n_def)
  from floorlog_bounds [OF n, of 2] have b: "n < 2 ^ floorlog 2 n" by simp
  then have "n + 1 \<le> 2 ^ floorlog 2 n" by simp
  then have "(of_nat (n + 1) :: rat) \<le> of_nat (2 ^ floorlog 2 n)" by (simp only: of_nat_le_iff)
  moreover have "x < of_int \<lfloor>x\<rfloor> + 1" by linarith
  moreover have "(of_int \<lfloor>x\<rfloor> :: rat) = of_nat n"
  proof -
    have "int n = \<lfloor>x\<rfloor>" using True by (simp add: n_def)
    then have "(of_int \<lfloor>x\<rfloor> :: rat) = of_int (int n)" by simp
    then show ?thesis by (simp only: of_int_of_nat_eq)
  qed
  ultimately have "x < 2 ^ floorlog 2 n" by simp
  moreover have "ilog2 x + 1 = int (floorlog 2 n)" using True by (simp add: ilog2_def n_def)
  ultimately show ?thesis by simp
next
  case False
  assume pos: "0 < x"
  define c where "c = \<lceil>1 / x\<rceil>"
  define n where "n = nat (c - 1)"
  define L where "L = floorlog 2 n"
  from False pos have "1 / x > 1" by simp
  then have c: "c \<ge> 2" unfolding c_def by linarith
  then have n: "0 < n" by (simp add: n_def)
  from n have L: "1 \<le> L" by (simp add: L_def floorlog_def)
  from floorlog_bounds [OF n, of 2] have b: "2 ^ (L - 1) \<le> n" by (simp add: L_def)
  then have "(of_nat (2 ^ (L - 1)) :: rat) \<le> of_nat n" by (simp only: of_nat_le_iff)
  moreover have "of_int c - 1 < 1 / x" unfolding c_def by linarith
  moreover have "(of_nat n :: rat) = of_int c - 1"
  proof -
    have "int n = c - 1" using c by (simp add: n_def)
    then have "(of_int (int n) :: rat) = of_int (c - 1)" by simp
    then show ?thesis by simp
  qed
  ultimately have "2 ^ (L - 1) < 1 / x" by simp
  then have "x < 1 / 2 ^ (L - 1)" using pos
    by (simp add: field_simps)
  moreover have "ilog2 x + 1 = - int (L - 1)"
    using False L by (simp add: ilog2_def n_def L_def c_def)
  ultimately show ?thesis by (simp add: power_int_minus_divide)
qed

lemma ilog2_mono:
  assumes "0 < x" and "x \<le> y"
  shows "ilog2 x \<le> ilog2 y"
proof (rule ccontr)
  assume "\<not> ilog2 x \<le> ilog2 y"
  then have "ilog2 y + 1 \<le> ilog2 x" by simp
  then have "(2::rat) powi (ilog2 y + 1) \<le> 2 powi (ilog2 x)"
    by (intro power_int_increasing) simp_all
  moreover have "y < 2 powi (ilog2 y + 1)" using assms by (intro ilog2_upper) simp
  moreover have "2 powi (ilog2 x) \<le> x" using assms(1) by (rule ilog2_lower)
  ultimately show False using assms(2) by linarith
qed

lemma round53_pos:
  "0 < x \<Longrightarrow> round53 x = of_int (rne (x / 2 powi (ilog2 x - 52))) * 2 powi (ilog2 x - 52)"
  by (simp add: round53_def Let_def)

lemma scaled_bounds:
  assumes "0 < x"
  shows "of_int (2 ^ 52) \<le> x / 2 powi (ilog2 x - 52)"
    and "x / 2 powi (ilog2 x - 52) \<le> of_int (2 ^ 53)"
proof -
  define q where "q = x / 2 powi (ilog2 x)"
  have p: "(0::rat) < 2 powi (ilog2 x)" by simp
  have u: "x / 2 powi (ilog2 x - 52) = q * 2 ^ 52"
    by (simp add: power_int_diff q_def)
  have "2 powi (ilog2 x) \<le> x" using assms by (rule ilog2_lower)
  then have q1: "1 \<le> q" using p by (simp add: q_def field_simps)
  have "x < 2 powi (ilog2 x + 1)" using assms by (rule ilog2_upper)
  also have "\<dots> = 2 * 2 powi (ilog2 x)" by (simp add: power_int_add)
  finally have q2: "q \<le> 2" using p by (simp add: q_def field_simps)
  from q1 show "of_int (2 ^ 52) \<le> x / 2 powi (ilog2 x - 52)"
    unfolding u by simp
  from q2 show "x / 2 powi (ilog2 x - 52) \<le> of_int (2 ^ 53)"
    unfolding u by simp
qed

lemma round53_binade:
  assumes "0 < x"
  shows "2 powi (ilog2 x) \<le> round53 x" and "round53 x \<le> 2 powi (ilog2 x + 1)"
proof -
  define u :: rat where "u = 2 powi (ilog2 x - 52)"
  have u: "0 < u" by (simp add: u_def)
  have r: "round53 x = of_int (rne (x / u)) * u"
    using assms by (simp add: round53_pos u_def)
  from scaled_bounds [OF assms] have "2 ^ 52 \<le> rne (x / u)" "rne (x / u) \<le> 2 ^ 53"
    using rne_mono [of "of_int (2 ^ 52)" "x / u"] rne_mono [of "x / u" "of_int (2 ^ 53)"]
    by (simp_all only: rne_of_int u_def)
  then have "(of_int (2 ^ 52) :: rat) \<le> of_int (rne (x / u))"
    and "(of_int (rne (x / u)) :: rat) \<le> of_int (2 ^ 53)"
    by (simp_all only: of_int_le_iff)
  then have "of_int (2 ^ 52) * u \<le> round53 x" "round53 x \<le> of_int (2 ^ 53) * u"
    using u unfolding r by (simp_all only: mult_le_cancel_right_pos)
  moreover have "of_int (2 ^ 52) * u = 2 powi (ilog2 x)"
    by (simp add: u_def power_int_diff)
  moreover have "of_int (2 ^ 53) * u = 2 powi (ilog2 x + 1)"
    by (simp add: u_def power_int_diff power_int_add)
  ultimately show "2 powi (ilog2 x) \<le> round53 x" and "round53 x \<le> 2 powi (ilog2 x + 1)"
    by simp_all
qed

lemma round53_mono:
  assumes "0 < x" and "x \<le> y"
  shows "round53 x \<le> round53 y"
proof (cases "ilog2 x = ilog2 y")
  case True
  define u :: rat where "u = 2 powi (ilog2 x - 52)"
  have u: "0 < u" by (simp add: u_def)
  from assms have y: "0 < y" by simp
  have "x / u \<le> y / u" using assms(2) u by (simp add: divide_right_mono)
  then have "rne (x / u) \<le> rne (y / u)" by (rule rne_mono)
  then have "(of_int (rne (x / u)) :: rat) \<le> of_int (rne (y / u))" by (simp only: of_int_le_iff)
  then have "of_int (rne (x / u)) * u \<le> of_int (rne (y / u)) * u"
    using u by (simp only: mult_le_cancel_right_pos)
  then show ?thesis
    using assms(1) y True by (simp add: round53_pos u_def)
next
  case False
  from assms have y: "0 < y" by simp
  from False ilog2_mono [OF assms] have "ilog2 x + 1 \<le> ilog2 y" by simp
  then have "(2::rat) powi (ilog2 x + 1) \<le> 2 powi (ilog2 y)"
    by (intro power_int_increasing) simp_all
  with round53_binade(2) [OF assms(1)] round53_binade(1) [OF y] show ?thesis by linarith
qed

lemma float_consts:
  "round53 20 = 20" "(1::rat) / 20 < float_lit (5 / 100)" "float_lit (5 / 100) = round53 (1 / 20)"
  by code_simp+

lemma aspect_ratio_exact:
  fixes w h :: int
  assumes w: "0 \<le> w" and h: "0 < h" and small: "h < 2 ^ 48"
  shows "fdiv w h > 20 \<longleftrightarrow> w > 20 * h"
    and "fdiv w h < float_lit (5 / 100) \<longleftrightarrow> 20 * w < h"
proof -
  define x :: rat where "x = of_int w / of_int h"
  define eps :: rat where "eps = 1 / 2 ^ 53"
  have hpos: "(0::rat) < of_int h" using h by simp
  have hlt: "(of_int h :: rat) < 2 ^ 48"
  proof -
    have "(of_int h :: rat) < of_int (2 ^ 48)" using small by (simp only: of_int_less_iff)
    then show ?thesis by simp
  qed
  have x0: "0 \<le> x" using w h by (simp add: x_def)
  have f: "fdiv w h = round53 x" by (simp add: fdiv_def x_def)
  have hinv: "1 / 2 ^ 48 < 1 / (of_int h :: rat)"
    using hlt hpos by (simp add: field_simps)
  have err: "\<bar>round53 x - x\<bar> \<le> x * eps" if "0 < x"
    using round53_error [OF that] by (simp add: eps_def)
  show "fdiv w h > 20 \<longleftrightarrow> w > 20 * h"
  proof
    assume a: "fdiv w h > 20"
    show "w > 20 * h"
    proof (rule ccontr)
      assume "\<not> w > 20 * h"
      then have "w \<le> 20 * h" by simp
      then have "(of_int w :: rat) \<le> of_int (20 * h)" by (simp only: of_int_le_iff)
      then have x20: "x \<le> 20" using hpos by (simp add: x_def field_simps)
      have "round53 x \<le> 20"
      proof (cases "x = 0")
        case True
        then show ?thesis by (simp add: round53_def)
      next
        case False
        with x0 have "0 < x" by simp
        from round53_mono [OF this x20] show ?thesis by (simp add: float_consts)
      qed
      with a f show False by simp
    qed
  next
    assume "w > 20 * h"
    then have "20 * h + 1 \<le> w" by simp
    then have "(of_int (20 * h + 1) :: rat) \<le> of_int w" by (simp only: of_int_le_iff)
    then have "(of_int (20 * h + 1) :: rat) / of_int h \<le> of_int w / of_int h"
      using hpos by (intro divide_right_mono) simp_all
    moreover have "(of_int (20 * h + 1) :: rat) / of_int h = 20 + 1 / of_int h"
      using hpos by (simp add: field_simps)
    ultimately have xl: "20 + 1 / of_int h \<le> x" by (simp add: x_def)
    with hinv have xl': "20 + 1 / 2 ^ 48 < x" by linarith
    then have xpos: "0 < x" by (simp add: add_pos_pos less_imp_le order_less_le_trans)
    have "20 < x * (1 - eps)"
    proof -
      have "(20 + 1 / 2 ^ 48) * (1 - eps) \<le> x * (1 - eps)"
        using xl' by (intro mult_right_mono) (simp_all add: eps_def)
      moreover have "20 < (20 + 1 / 2 ^ 48) * (1 - eps)" by (simp add: eps_def)
      ultimately show ?thesis by linarith
    qed
    moreover have "x - x * eps \<le> round53 x" using err [OF xpos] by (simp add: abs_le_iff)
    ultimately show "fdiv w h > 20" unfolding f by (simp add: right_diff_distrib)
  qed
  show "fdiv w h < float_lit (5 / 100) \<longleftrightarrow> 20 * w < h"
  proof
    assume a: "fdiv w h < float_lit (5 / 100)"
    show "20 * w < h"
    proof (rule ccontr)
      assume "\<not> 20 * w < h"
      then have "h \<le> 20 * w" by simp
      then have "(of_int h :: rat) \<le> of_int (20 * w)" by (simp only: of_int_le_iff)
      then have "1 / 20 \<le> x" using hpos by (simp add: x_def field_simps)
      from round53_mono [OF _ this] have "round53 (1 / 20) \<le> round53 x" by simp
      then have "float_lit (5 / 100) \<le> round53 x" by (simp only: float_consts(3))
      with a f show False by simp
    qed
  next
    assume "20 * w < h"
    then have "20 * w + 1 \<le> h" by simp
    then have "(of_int (20 * w + 1) :: rat) \<le> of_int h" by (simp only: of_int_le_iff)
    then have xu: "x \<le> 1 / 20 - 1 / (20 * of_int h)" using hpos by (simp add: x_def field_simps)
    have "round53 x < 1 / 20"
    proof (cases "x = 0")
      case True
      then show ?thesis by (simp add: round53_def)
    next
      case False
      with x0 have xpos: "0 < x" by simp
      have "(0::rat) < 1 / (20 * of_int h)" using hpos by simp
      with xu have x20': "x \<le> 1 / 20" by linarith
      have "x * eps \<le> (1 / 20) * eps"
        using x20' by (intro mult_right_mono) (simp_all add: eps_def)
      moreover have "(1 / 20) * eps < 1 / (20 * of_int h)"
      proof -
        have "eps < 1 / 2 ^ 48" by (simp add: eps_def)
        with hinv have "eps < 1 / of_int h" by linarith
        then show ?thesis by simp
      qed
      moreover have "round53 x \<le> x + x * eps" using err [OF xpos] by (simp add: abs_le_iff)
      ultimately show ?thesis using xu by linarith
    qed
    with float_consts(2) show "fdiv w h < float_lit (5 / 100)" unfolding f by linarith
  qed
qed

section \<open>Properties of the decorative classifier\<close>

lemma ilog2_ge:
  assumes "0 < x" and "2 powi n \<le> x"
  shows "n \<le> ilog2 x"
proof (rule ccontr)
  assume "\<not> n \<le> ilog2 x"
  then have "ilog2 x + 1 \<le> n" by simp
  then have "(2::rat) powi (ilog2 x + 1) \<le> 2 powi n"
    by (intro power_int_increasing) simp_all
  moreover have "x < 2 powi (ilog2 x + 1)" using assms(1) by (rule ilog2_upper)
  ultimately show False using assms(2) by linarith
qed

lemma ilog2_less:
  assumes "0 < x" and "x < 2 powi n"
  shows "ilog2 x < n"
proof (rule ccontr)
  assume "\<not> ilog2 x < n"
  then have "n \<le> ilog2 x" by simp
  then have "(2::rat) powi n \<le> 2 powi (ilog2 x)"
    by (intro power_int_increasing) simp_all
  moreover have "2 powi (ilog2 x) \<le> x" using assms(1) by (rule ilog2_lower)
  ultimately show False using assms(2) by linarith
qed

lemma truediv_in_range:
  fixes w h :: int
  assumes w: "20 \<le> w" "w < 2 ^ 1024" and h: "20 \<le> h" "h < 2 ^ 48"
  shows "truediv w h = Inr (fdiv w h)"
proof -
  define x :: rat where "x = of_int w / of_int h"
  define top :: rat where "top = 2 powi 1020"
  have hpos: "(0::rat) < of_int h" using h by simp
  have h20: "(20::rat) \<le> of_int h"
  proof -
    have "(of_int 20 :: rat) \<le> of_int h" using h(1) by (simp only: of_int_le_iff)
    then show ?thesis by simp
  qed
  have hlt: "(of_int h :: rat) < 2 ^ 48"
  proof -
    have "(of_int h :: rat) < of_int (2 ^ 48)" using h(2) by (simp only: of_int_less_iff)
    then show ?thesis by simp
  qed
  have w1: "(1::rat) \<le> of_int w"
  proof -
    have "(of_int 1 :: rat) \<le> of_int w" using w(1) by (simp only: of_int_le_iff)
    then show ?thesis by simp
  qed
  have wlt: "(of_int w :: rat) < 16 * top"
  proof -
    have "(of_int w :: rat) < of_int (2 ^ 1024)" using w(2) by (simp only: of_int_less_iff)
    then show ?thesis by (simp add: top_def)
  qed
  have xpos: "0 < x" using hpos w1 by (simp add: x_def)
  have "1 / of_int h \<le> x"
    unfolding x_def using w1 hpos by (intro divide_right_mono) simp_all
  moreover have "1 / 2 ^ 48 < 1 / (of_int h :: rat)"
    using hlt hpos by (simp add: field_simps)
  moreover have "(2::rat) powi (- 48) = 1 / 2 ^ 48"
    by (simp add: power_int_minus_divide)
  ultimately have "(2::rat) powi (- 48) \<le> x" by linarith
  with xpos have lo: "- 48 \<le> ilog2 x" by (rule ilog2_ge)
  have "x \<le> of_int w / 20"
    unfolding x_def using w1 h20 by (intro divide_left_mono) simp_all
  moreover have "0 < top" by (simp add: top_def)
  ultimately have "x < top" using wlt by linarith
  with xpos have "ilog2 x < 1020" unfolding top_def by (rule ilog2_less)
  then have "ilog2 x + 1 \<le> 1020" by simp
  then have "(2::rat) powi (ilog2 x + 1) \<le> 2 powi 1020"
    by (intro power_int_increasing) simp_all
  moreover have "round53 x \<le> 2 powi (ilog2 x + 1)" using xpos by (rule round53_binade(2))
  moreover have "(2::rat) powi 1020 < 2 powi 1024"
    by (intro power_int_strict_increasing) simp_all
  ultimately have qlt: "round53 x < 2 powi 1024" by linarith
  have "(0::rat) < 2 powi (ilog2 x)" by simp
  with round53_binade(1) [OF xpos] have qpos: "0 < round53 x" by linarith
  from qpos qlt have "ilog2 (round53 x) < 1024" by (rule ilog2_less)
  with lo xpos qpos h(1) show ?thesis
    by (simp add: truediv_def fdiv_def x_def [symmetric] Let_def)
qed

lemma truediv_overflow:
  fixes a b :: int
  assumes b: "0 < b" and a: "2 ^ 1024 * b \<le> a"
  shows "truediv a b = Inl OverflowError"
proof -
  define x :: rat where "x = of_int a / of_int b"
  have bpos: "(0::rat) < of_int b" using b by simp
  have "(of_int (2 ^ 1024 * b) :: rat) \<le> of_int a" using a by (simp only: of_int_le_iff)
  then have "2 ^ 1024 * of_int b \<le> (of_int a :: rat)" by simp
  then have "2 ^ 1024 \<le> x" using bpos by (simp add: x_def field_simps)
  moreover have "(2::rat) powi 1024 = 2 ^ 1024" by simp
  ultimately have big: "(2::rat) powi 1024 \<le> x" by linarith
  have "(0::rat) < 2 powi 1024" by simp
  with big have xpos: "0 < x" by linarith
  from xpos big have e: "1024 \<le> ilog2 x" by (rule ilog2_ge)
  then have "(2::rat) powi 1024 \<le> 2 powi (ilog2 x)"
    by (intro power_int_increasing) simp_all
  with round53_binade(1) [OF xpos] have q: "2 powi 1024 \<le> round53 x" by linarith
  with \<open>(0::rat) < 2 powi 1024\<close> have qpos: "0 < round53 x" by linarith
  from qpos q have "1024 \<le> ilog2 (round53 x)" by (rule ilog2_ge)
  with e xpos qpos b show ?thesis
    by (simp add: truediv_def x_def [symmetric] Let_def)
qed

lemma ratio_as_integers:
  fixes w h :: int
  assumes "0 < h"
  shows "(20::rat) < of_int w / of_int h \<longleftrightarrow> 20 * h < w"
    and "of_int w / of_int h < (5::rat) / 100 \<longleftrightarrow> 20 * w < h"
proof -
  have hpos: "(0::rat) < of_int h" using assms by simp
  have "(20::rat) < of_int w / of_int h \<longleftrightarrow> (of_int (20 * h) :: rat) < of_int w"
    using hpos by (simp add: field_simps)
  then show "(20::rat) < of_int w / of_int h \<longleftrightarrow> 20 * h < w"
    by (simp only: of_int_less_iff)
  have "of_int w / of_int h < (5::rat) / 100 \<longleftrightarrow> (of_int (20 * w) :: rat) < of_int h"
    using hpos by (simp add: field_simps)
  then show "of_int w / of_int h < (5::rat) / 100 \<longleftrightarrow> 20 * w < h"
    by (simp only: of_int_less_iff)
qed

lemma determine_if_decorative_exact:
  assumes "0 \<le> w" and "w < 2 ^ 1024" and "h < 2 ^ 48"
  shows "determine_if_decorative \<lparr>img_name = n, img_width = w, img_height = h,
            img_page_number = p, img_is_decorative = d, img_alt_text = a\<rparr>
         = Inr (w < 20 \<or> h < 20 \<or> w * h < 400
                \<or> (20::rat) < of_int w / of_int h \<or> of_int w / of_int h < (5::rat) / 100)"
proof (cases "w < 20 \<or> h < 20")
  case True
  then show ?thesis by (auto simp: determine_if_decorative_def)
next
  case False
  then have w: "20 \<le> w" and h: "20 \<le> h" by simp_all
  from h have hpos: "0 < h" by simp
  have t: "truediv w h = Inr (fdiv w h)"
    using w assms(2) h assms(3) by (rule truediv_in_range)
  from aspect_ratio_exact [OF assms(1) hpos assms(3)] ratio_as_integers [OF hpos, of w]
  have "fdiv w h > 20 \<longleftrightarrow> (20::rat) < of_int w / of_int h"
    and "fdiv w h < float_lit (5 / 100) \<longleftrightarrow> of_int w / of_int h < (5::rat) / 100"
    by blast+
  with False hpos show ?thesis
    by (simp add: determine_if_decorative_def t)
qed

text \<open>
  C3 (as the claim states it, refuted): the aspect ratio is the quotient as Python computes
  it, a float. An image of width \<open>20 * 2 ^ 49 + 1\<close> and height \<open>2 ^ 49\<close> has a ratio above
  20, but the quotient is rounded to the float 20.0 and the image comes out descriptive. An
  image of width \<open>20 * 2 ^ 1024\<close> and height 20 has no verdict at all: the quotient is too
  large for a float and the division raises \<open>OverflowError\<close>.
\<close>

theorem determine_if_decorative_rounds_the_ratio:
  "determine_if_decorative \<lparr>img_name = ''Im1'', img_width = 20 * 2 ^ 49 + 1, img_height = 2 ^ 49,
       img_page_number = 1, img_is_decorative = False, img_alt_text = ''''\<rparr> = Inr False
   \<and> (20::rat) < of_int (20 * 2 ^ 49 + 1) / of_int (2 ^ 49)
   \<and> determine_if_decorative \<lparr>img_name = ''Im1'', img_width = 20 * 2 ^ 1024, img_height = 20,
       img_page_number = 1, img_is_decorative = False, img_alt_text = ''''\<rparr>
     = Inl OverflowError"
proof (intro conjI)
  show "determine_if_decorative \<lparr>img_name = ''Im1'', img_width = 20 * 2 ^ 49 + 1,
       img_height = 2 ^ 49, img_page_number = 1, img_is_decorative = False,
       img_alt_text = ''''\<rparr> = Inr False"
    by code_simp
next
  show "(20::rat) < of_int (20 * 2 ^ 49 + 1) / of_int (2 ^ 49)"
    by simp
next
  have "truediv (20 * 2 ^ 1024) 20 = Inl OverflowError"
    by (rule truediv_overflow) simp_all
  then show "determine_if_decorative \<lparr>img_name = ''Im1'', img_width = 20 * 2 ^ 1024,
       img_height = 20, img_page_number = 1, img_is_decorative = False,
       img_alt_text = ''''\<rparr> = Inl OverflowError"
    by (simp add: determine_if_decorative_def)
qed

text \<open>
  C3 (amended): for a width from 0 to below \<open>2 ^ 1024\<close> and a height below \<open>2 ^ 48\<close> the
  classifier returns a verdict, the verdict is a function of width and height alone (no
  other field of the image enters), and it is \<open>decorative\<close> exactly when the width is below
  20, or the height is below 20, or width times height is below 400, or the aspect ratio
  width/height, taken exactly, is above 20 or below 5/100. So 10 by 10 and 1000 by 10 are
  decorative and 500 by 500 is descriptive.
\<close>

theorem determine_if_decorative_thresholds:
  assumes "0 \<le> w" and "w < 2 ^ 1024" and "h < 2 ^ 48"
  shows "determine_if_decorative \<lparr>img_name = n, img_width = w, img_height = h,
            img_page_number = p, img_is_decorative = d, img_alt_text = a\<rparr>
         = Inr (w < 20 \<or> h < 20 \<or> w * h < 400
                \<or> (20::rat) < of_int w / of_int h \<or> of_int w / of_int h < (5::rat) / 100)
       \<and> determine_if_decorative \<lparr>img_name = n, img_width = 10, img_height = 10,
            img_page_number = p, img_is_decorative = d, img_alt_text = a\<rparr> = Inr True
       \<and> determine_if_decorative \<lparr>img_name = n, img_width = 1000, img_height = 10,
            img_page_number = p, img_is_decorative = d, img_alt_text = a\<rparr> = Inr True
       \<and> determine_if_decorative \<lparr>img_name = n, img_width = 500, img_height = 500,
            img_page_number = p, img_is_decorative = d, img_alt_text = a\<rparr> = Inr False"
proof (intro conjI)
  show "determine_if_decorative \<lparr>img_name = n, img_width = w, img_height = h,
            img_page_number = p, img_is_decorative = d, img_alt_text = a\<rparr>
         = Inr (w < 20 \<or> h < 20 \<or> w * h < 400
                \<or> (20::rat) < of_int w / of_int h \<or> of_int w / of_int h < (5::rat) / 100)"
    using assms by (rule determine_if_decorative_exact)
next
  show "determine_if_decorative \<lparr>img_name = n, img_width = 10, img_height = 10,
            img_page_number = p, img_is_decorative = d, img_alt_text = a\<rparr> = Inr True"
    by (simp add: determine_if_decorative_def)
next
  show "determine_if_decorative \<lparr>img_name = n, img_width = 1000, img_height = 10,
            img_page_number = p, img_is_decorative = d, img_alt_text = a\<rparr> = Inr True"
    by (simp add: determine_if_decorative_def)
next
  have "determine_if_decorative \<lparr>img_name = n, img_width = 500, img_height = 500,
            img_page_number = p, img_is_decorative = d, img_alt_text = a\<rparr>
        = Inr (500 < (20::int) \<or> 500 < (20::int) \<or> 500 * 500 < (400::int)
               \<or> (20::rat) < of_int 500 / of_int 500 \<or> of_int 500 / of_int 500 < (5::rat) / 100)"
    by (rule determine_if_decorative_exact) simp_all
  then show "determine_if_decorative \<lparr>img_name = n, img_width = 500, img_height = 500,
            img_page_number = p, img_is_decorative = d, img_alt_text = a\<rparr> = Inr False"
    by simp
qed

theorem determine_if_decorative_thresholds_witness:
  "(0::int) \<le> 1000 \<and> (1000::int) < 2 ^ 1024 \<and> (40::int) < 2 ^ 48
   \<and> determine_if_decorative \<lparr>img_name = ''Im1'', img_width = 1000, img_height = 40,
       img_page_number = 1, img_is_decorative = False, img_alt_text = ''''\<rparr> = Inr True
   \<and> determine_if_decorative \<lparr>img_name = ''Im1'', img_width = 30, img_height = 40,
       img_page_number = 1, img_is_decorative = False, img_alt_text = ''''\<rparr> = Inr False"
  using determine_if_decorative_thresholds [of 1000 40 "''Im1''" 1 False "''''"]
    determine_if_decorative_thresholds [of 30 40 "''Im1''" 1 False "''''"]
  by simp

section \<open>Every builder operation only extends the structure tree\<close>

lemma tree_step_refl: "tree_step t t"
  by (simp add: tree_step_def)

lemma tree_step_same:
  "the_K t' = the_K t \<Longrightarrow> the_Nums t' = the_Nums t \<Longrightarrow> tree_step t t'"
  by (simp add: tree_step_def)

lemma tree_step_trans:
  assumes "tree_step t t'" and "tree_step t' t''"
  shows "tree_step t t''"
proof -
  from assms(1) obtain new more where
    a: "the_K t' = the_K t @ new" "list_all artifact_alt_empty new"
       "the_Nums t' = the_Nums t @ more"
       "nums_dense (the_Nums t) \<longrightarrow> nums_dense (the_Nums t')"
    by (auto simp: tree_step_def)
  from assms(2) obtain new' more' where
    b: "the_K t'' = the_K t' @ new'" "list_all artifact_alt_empty new'"
       "the_Nums t'' = the_Nums t' @ more'"
       "nums_dense (the_Nums t') \<longrightarrow> nums_dense (the_Nums t'')"
    by (auto simp: tree_step_def)
  have "the_K t'' = the_K t @ (new @ new')" "list_all artifact_alt_empty (new @ new')"
       "the_Nums t'' = the_Nums t @ (more @ more')"
    using a b by simp_all
  with a(4) b(4) show ?thesis
    unfolding tree_step_def by blast
qed

lemma nums_keys_append:
  "even (length ns) \<Longrightarrow> nums_keys (ns @ ms) = nums_keys ns @ nums_keys ms"
  by (induction ns rule: nums_keys.induct) auto

lemma nums_dense_link:
  assumes "nums_dense ns"
  shows "nums_dense (ns @ [NumInt (int (length ns div 2)), NumElem e])"
proof -
  from assms have ev: "even (length ns)"
    and keys: "nums_keys ns = map (\<lambda>i. NumInt (int i)) [0 ..< length ns div 2]"
    by (simp_all add: nums_dense_def)
  have len: "length (ns @ [NumInt (int (length ns div 2)), NumElem e]) div 2
               = Suc (length ns div 2)"
    by simp
  have "nums_keys (ns @ [NumInt (int (length ns div 2)), NumElem e])
          = nums_keys ns @ [NumInt (int (length ns div 2))]"
    using ev by (simp add: nums_keys_append)
  also have "\<dots> = map (\<lambda>i. NumInt (int i)) [0 ..< Suc (length ns div 2)]"
    using keys by simp
  finally show ?thesis
    using ev unfolding nums_dense_def len by simp
qed

lemma the_K_append_K: "the_K (append_K e t) = the_K t @ [e]"
  by (simp add: append_K_def the_K_def)

lemma the_Nums_append_K: "the_Nums (append_K e t) = the_Nums t"
  by (simp add: append_K_def the_Nums_def)

lemma the_K_append_Nums: "the_K (append_Nums items t) = the_K t"
  by (simp add: append_Nums_def the_K_def split: option.splits)

lemma the_Nums_append_Nums: "the_Nums (append_Nums items t) = the_Nums t @ items"
  by (simp add: append_Nums_def the_Nums_def split: option.splits)

lemma the_K_ensure_K: "the_K (ensure_K t) = the_K t"
  by (simp add: ensure_K_def the_K_def split: option.splits)

lemma the_Nums_ensure_K: "the_Nums (ensure_K t) = the_Nums t"
  by (simp add: ensure_K_def the_Nums_def split: option.splits)

lemma the_K_ensure_parent_tree: "the_K (ensure_parent_tree t) = the_K t"
  by (simp add: ensure_parent_tree_def the_K_def split: option.splits)

lemma the_Nums_ensure_parent_tree: "the_Nums (ensure_parent_tree t) = the_Nums t"
  by (simp add: ensure_parent_tree_def the_Nums_def split: option.splits)

lemma the_K_link_parent_tree: "the_K (fst (link_parent_tree e t)) = the_K t"
  by (simp add: link_parent_tree_def the_K_def Let_def split: option.splits)

lemma the_Nums_link_parent_tree:
  "the_Nums (fst (link_parent_tree e t)) = the_Nums t
   \<or> the_Nums (fst (link_parent_tree e t))
       = the_Nums t @ [NumInt (int (length (the_Nums t) div 2)), NumElem e]"
  by (simp add: link_parent_tree_def the_Nums_def Let_def split: option.splits)

lemma tree_step_add:
  assumes "artifact_alt_empty e"
    and "the_K t' = the_K t @ [e]"
    and "the_Nums t' = the_Nums t
         \<or> the_Nums t' = the_Nums t @ [NumInt (int (length (the_Nums t) div 2)), NumElem e']"
  shows "tree_step t t'"
proof -
  have k: "\<exists>new. the_K t' = the_K t @ new \<and> list_all artifact_alt_empty new"
    using assms(1,2) by simp
  from assms(3) show ?thesis
  proof
    assume "the_Nums t' = the_Nums t"
    with k show ?thesis by (simp add: tree_step_def)
  next
    assume n: "the_Nums t' = the_Nums t @ [NumInt (int (length (the_Nums t) div 2)), NumElem e']"
    then have "nums_dense (the_Nums t) \<longrightarrow> nums_dense (the_Nums t')"
      using nums_dense_link by simp
    with k n show ?thesis unfolding tree_step_def by blast
  qed
qed

lemma fold_tree_step:
  assumes "\<And>x s. tree_step (proj s) (proj (f x s))"
  shows "tree_step (proj s) (proj (fold f xs s))"
proof (induction xs arbitrary: s)
  case Nil
  show ?case by (simp add: tree_step_refl)
next
  case (Cons x xs)
  have "tree_step (proj s) (proj (f x s))" by (rule assms)
  moreover have "tree_step (proj (f x s)) (proj (fold f xs (f x s)))" by (rule Cons.IH)
  ultimately show ?case by (simp add: tree_step_trans)
qed

lemma tag_image_step: "tree_step (fst st) (fst (tag_image imgs page_num entry st))"
proof (cases entry, cases st)
  fix obj_name obj t c
  assume e: "entry = (obj_name, obj)" and s: "st = (t, c)"
  show ?thesis
  proof (cases "x_Subtype obj \<noteq> Some ''Image'' \<or> find_image_info imgs page_num obj_name = None")
    case True
    then show ?thesis
      by (auto simp: tag_image_def e s tree_step_refl split: option.splits)
  next
    case False
    then obtain img_info where f: "find_image_info imgs page_num obj_name = Some img_info"
      and i: "x_Subtype obj = Some ''Image''" by auto
    have step: "tree_step t (append_K e
                 (append_Nums [NumInt (int (length (the_Nums t) div 2)), NumElem e] t))"
      if "artifact_alt_empty e" for e
      by (rule tree_step_add [where e = e and e' = e])
         (simp_all add: that the_K_append_K the_K_append_Nums the_Nums_append_K
            the_Nums_append_Nums)
    show ?thesis
      unfolding tag_image_def e s
      by (auto simp: f i Let_def artifact_alt_empty_def fresh_struct_elem_def intro!: step)
  qed
qed

lemma mark_entry_step:
  "tree_step (fst st) (fst (mark_entry imgs tagged page_num entry st))"
proof (cases entry, cases st)
  fix obj_name obj t c
  assume e: "entry = (obj_name, obj)" and s: "st = (t, c)"
  have a: "tree_step t (append_K ((fresh_struct_elem ''Artifact'')\<lparr>se_P := True, se_Alt := Some [],
              se_BBox := Some b\<rparr>) t)" for b
    by (rule tree_step_add [where e' = "fresh_struct_elem ''Artifact''"])
       (simp_all add: artifact_alt_empty_def the_K_append_K the_Nums_append_K)
  have b: "tree_step t (append_K ((fresh_struct_elem ''Artifact'')\<lparr>se_P := True, se_Alt := Some []\<rparr>) t)"
    by (rule tree_step_add [where e' = "fresh_struct_elem ''Artifact''"])
       (simp_all add: artifact_alt_empty_def the_K_append_K the_Nums_append_K)
  show ?thesis
    unfolding mark_entry_def e s
    by (auto simp: Let_def a b tree_step_refl split: option.splits)
qed

lemma tag_form_field_step:
  "tree_step (fst (snd st)) (fst (snd (tag_form_field field_info st)))"
proof (cases st)
  fix flds t c
  assume s: "st = (flds, t, c)"
  show ?thesis
  proof (cases "ff_field_ref field_info")
    case None
    then show ?thesis by (simp add: tag_form_field_def s tree_step_refl)
  next
    case (Some i)
    show ?thesis
    proof (cases "length flds \<le> i")
      case True
      then show ?thesis by (simp add: tag_form_field_def s Some tree_step_refl)
    next
      case False
      have step: "tree_step t (append_K e (if b then fst (link_parent_tree e t) else t))"
        if "se_S e = ''Form''" for e b
        using that the_Nums_link_parent_tree [of e t]
        by (intro tree_step_add [where e' = e])
           (auto simp: artifact_alt_empty_def the_K_append_K the_Nums_append_K
              the_K_link_parent_tree)
      show ?thesis
      proof (cases "field_is_empty (flds ! i)")
        case True
        with False show ?thesis by (simp add: tag_form_field_def s Some tree_step_refl)
      next
        case nonempty: False
        show ?thesis
          unfolding tag_form_field_def s
          using False nonempty
          by (simp add: Some Let_def if_distrib [of snd] if_distrib [of fst] step
              fresh_struct_elem_def cong: if_cong)
      qed
    qed
  qed
qed

lemma struct_type_map_not_artifact: "struct_type_map s \<noteq> ''Artifact''"
  by (auto simp: struct_type_map_def split: option.splits if_splits)

lemma tag_annotation_step:
  "tree_step (fst (snd st)) (fst (snd (snd (tag_annotation a st))))"
proof (cases st)
  fix ps t c
  assume s: "st = (ps, t, c)"
  have step: "tree_step t (append_K e (if b then fst (link_parent_tree e t) else t))"
    if "se_S e \<noteq> ''Artifact''" for e b
    using that the_Nums_link_parent_tree [of e t]
    by (intro tree_step_add [where e' = e])
       (auto simp: artifact_alt_empty_def the_K_append_K the_Nums_append_K
          the_K_link_parent_tree)
  show ?thesis
    unfolding tag_annotation_def s
    by (auto simp: Let_def if_distrib [of snd] if_distrib [of fst] step tree_step_refl
        fresh_struct_elem_def struct_type_map_not_artifact split: option.splits cong: if_cong)
qed

lemma tag_annotations_loop_step:
  "tree_step (fst (snd st)) (fst (snd (snd (tag_annotations_loop as st))))"
proof (induction as arbitrary: st)
  case Nil
  show ?case by (simp add: tree_step_refl)
next
  case (Cons a as)
  have "tree_step (fst (snd st)) (fst (snd (snd (tag_annotation a st))))"
    by (rule tag_annotation_step)
  moreover have "tree_step (fst (snd (snd (tag_annotation a st))))
      (fst (snd (snd (tag_annotations_loop as (snd (tag_annotation a st))))))"
    by (rule Cons.IH)
  ultimately show ?case by (simp add: Let_def tree_step_trans)
qed

lemma empty_struct_tree_K_Nums:
  "the_K (empty_struct_tree b) = []" "the_Nums (empty_struct_tree b) = []"
  by (simp_all add: empty_struct_tree_def the_K_def the_Nums_def)

lemma tree_of_Some: "StructTreeRoot (pdf r) = Some t \<Longrightarrow> tree_of r = t"
  by (simp add: tree_of_def)

lemma tree_of_None: "StructTreeRoot (pdf r) = None \<Longrightarrow> tree_of r = empty_struct_tree False"
  by (simp add: tree_of_def)

lemma pdf_analyze_images: "pdf (analyze_images r) = pdf r"
  by (simp add: analyze_images_def Let_def)

lemma pdf_analyze_annotations: "pdf (analyze_annotations r) = pdf r"
  by (simp add: analyze_annotations_def)

lemma pdf_analyze_form_fields: "pdf (analyze_form_fields r) = pdf r"
  by (simp add: analyze_form_fields_def split: option.splits)

lemma tree_of_cong: "pdf r' = pdf r \<Longrightarrow> tree_of r' = tree_of r"
  by (simp add: tree_of_def)

lemma tree_step_start:
  "tree_step (tree_of r)
     (case StructTreeRoot (pdf r) of None \<Rightarrow> empty_struct_tree b | Some t \<Rightarrow> t)"
  by (cases "StructTreeRoot (pdf r)")
     (simp_all add: tree_of_def tree_step_same empty_struct_tree_K_Nums tree_step_refl)

lemma tree_step_ensure_K: "tree_step t (ensure_K t)"
  by (simp add: tree_step_same the_K_ensure_K the_Nums_ensure_K)

lemma tree_step_ensure_parent_tree: "tree_step t (ensure_parent_tree t)"
  by (simp add: tree_step_same the_K_ensure_parent_tree the_Nums_ensure_parent_tree)

lemma fix_document_structure_step:
  "tree_step (tree_of r) (tree_of (fst (fix_document_structure r)))"
  by (cases "StructTreeRoot (pdf r)")
     (simp_all add: fix_document_structure_def Let_def tree_of_def tree_step_refl)

lemma tree_of_fix_document_structure:
  "StructTreeRoot (pdf r) = None \<Longrightarrow>
   StructTreeRoot (pdf (fst (fix_document_structure r))) = Some (empty_struct_tree False)"
  by (simp add: fix_document_structure_def Let_def)

lemma tree_step_fixed_start:
  "tree_step (tree_of r)
     (case StructTreeRoot
             (pdf (if StructTreeRoot (pdf r) = None then fst (fix_document_structure r) else r)) of
        None \<Rightarrow> empty_struct_tree b | Some t \<Rightarrow> t)"
  by (cases "StructTreeRoot (pdf r)")
     (simp_all add: tree_of_fix_document_structure tree_of_def tree_step_refl)

lemma tag_images_step: "tree_step (tree_of r) (tree_of (fst (tag_images r)))"
proof -
  define r2 where "r2 = (let r1 = (if images r = [] then analyze_images r else r)
                         in if annotations r1 = [] then analyze_annotations r1 else r1)"
  define t1 where "t1 = ensure_parent_tree (ensure_K
                          (case StructTreeRoot (pdf r2) of
                             None \<Rightarrow> empty_struct_tree True | Some t \<Rightarrow> t))"
  define st where "st = fold (\<lambda>(page_num, page). fold (tag_image (images r2) page_num) (p_XObject page))
                          (enumerate1 (pages (pdf r2))) (t1, 0 :: nat)"
  have p: "pdf r2 = pdf r"
    by (simp add: r2_def Let_def pdf_analyze_images pdf_analyze_annotations)
  have res: "tree_of (fst (tag_images r)) = fst st"
    by (simp add: tag_images_def Let_def tree_of_def st_def t1_def r2_def)
  have "tree_step (tree_of r2) t1"
    unfolding t1_def
    by (blast intro: tree_step_trans tree_step_start tree_step_ensure_K
          tree_step_ensure_parent_tree)
  then have a: "tree_step (tree_of r) t1" by (simp add: tree_of_cong [OF p])
  have inner: "tree_step (fst s) (fst ((\<lambda>(page_num, page).
                  fold (tag_image (images r2) page_num) (p_XObject page)) x s))" for x s
    by (cases x) (simp add: fold_tree_step [where proj = fst] tag_image_step)
  have "tree_step (fst (t1, 0 :: nat)) (fst st)"
    unfolding st_def by (rule fold_tree_step [where proj = fst]) (rule inner)
  with a show ?thesis unfolding res by (auto intro: tree_step_trans)
qed

lemma mark_unmarked_content_as_artifacts_step:
  "tree_step (tree_of r) (tree_of (fst (mark_unmarked_content_as_artifacts r)))"
proof -
  define r1 where "r1 = (if StructTreeRoot (pdf r) = None then fst (fix_document_structure r) else r)"
  define t1 where "t1 = ensure_K (case StructTreeRoot (pdf r1) of
                             None \<Rightarrow> empty_struct_tree False | Some t \<Rightarrow> t)"
  define tagged where "tagged = set (map (\<lambda>e. case se_T e of None \<Rightarrow> [] | Some s \<Rightarrow> s)
                                   (filter (\<lambda>e. se_S e = ''Figure'') (the_K t1)))"
  define st where "st = fold (\<lambda>(page_num, page).
                       fold (mark_entry (images r1) tagged page_num) (p_XObject page))
                 (enumerate1 (pages (pdf r1))) (t1, 0 :: nat)"
  have res: "tree_of (fst (mark_unmarked_content_as_artifacts r)) = fst st"
    by (simp add: mark_unmarked_content_as_artifacts_def Let_def tree_of_def st_def t1_def
        r1_def tagged_def)
  have a: "tree_step (tree_of r) t1"
    unfolding t1_def r1_def
    by (blast intro: tree_step_trans tree_step_fixed_start tree_step_ensure_K)
  have inner: "tree_step (fst s) (fst ((\<lambda>(page_num, page).
                  fold (mark_entry (images r1) tagged page_num) (p_XObject page)) x s))" for x s
    by (cases x) (simp add: fold_tree_step [where proj = fst] mark_entry_step)
  have "tree_step (fst (t1, 0 :: nat)) (fst st)"
    unfolding st_def by (rule fold_tree_step [where proj = fst]) (rule inner)
  with a show ?thesis unfolding res by (auto intro: tree_step_trans)
qed

lemma tree_step_more_K:
  assumes "list_all artifact_alt_empty new"
  shows "tree_step t (t\<lparr>st_K := Some (the_K t @ new)\<rparr>)"
  using assms by (simp add: tree_step_def the_K_def the_Nums_def)

lemma tag_headings_step: "tree_step (tree_of r) (tree_of (fst (tag_headings hm r)))"
proof (cases "hm = [] \<or> StructTreeRoot (pdf r) = None")
  case True
  then show ?thesis
    by (auto simp: tag_headings_def tree_of_def tree_step_refl)
next
  case False
  then obtain t where t: "StructTreeRoot (pdf r) = Some t" and hm: "hm \<noteq> []" by auto
  show ?thesis
  proof (cases "st_K t")
    case None
    then show ?thesis by (simp add: tag_headings_def t hm tree_step_refl)
  next
    case (Some k)
    have "list_all artifact_alt_empty
            (map (\<lambda>(page_num, heading_text). (fresh_struct_elem ''H1'')\<lparr>se_T := Some heading_text\<rparr>) hm)"
      by (simp add: list_all_iff artifact_alt_empty_def fresh_struct_elem_def split_beta)
    from tree_step_more_K [OF this, of t] show ?thesis
      by (simp add: tag_headings_def t hm Some Let_def tree_of_def the_K_def)
  qed
qed

lemma tag_tables_step: "tree_step (tree_of r) (tree_of (fst (tag_tables r)))"
proof (cases "StructTreeRoot (pdf r)")
  case None
  then show ?thesis by (simp add: tag_tables_def tree_step_refl)
next
  case (Some t)
  note t = this
  show ?thesis
  proof (cases "st_K t")
    case None
    then show ?thesis by (simp add: tag_tables_def t tree_step_refl)
  next
    case (Some k)
    have "list_all artifact_alt_empty
            (map (\<lambda>tbl. (fresh_struct_elem ''Table'')
                          \<lparr>se_Summary := Some (generate_summary_of_table tbl)\<rparr>) (tables r))"
      by (simp add: list_all_iff artifact_alt_empty_def fresh_struct_elem_def)
    from tree_step_more_K [OF this, of t] show ?thesis
      by (simp add: tag_tables_def t Some Let_def tree_of_def the_K_def)
  qed
qed

lemma tag_form_fields_step: "tree_step (tree_of r) (tree_of (fst (tag_form_fields r)))"
proof -
  define r1 where "r1 = (if form_fields r = [] then analyze_form_fields r else r)"
  have p: "pdf r1 = pdf r" by (simp add: r1_def pdf_analyze_form_fields)
  show ?thesis
  proof (cases "form_fields r1 = []")
    case True
    then show ?thesis
      by (simp add: tag_form_fields_def Let_def r1_def [symmetric] tree_of_cong [OF p]
          tree_step_refl)
  next
    case False
    define r2 where "r2 = (if StructTreeRoot (pdf r1) = None then fst (fix_document_structure r1) else r1)"
    define t1 where "t1 = ensure_K (case StructTreeRoot (pdf r2) of
                             None \<Rightarrow> empty_struct_tree False | Some t \<Rightarrow> t)"
    define st where "st = fold tag_form_field (form_fields r2)
        ((case AcroForm_Fields (pdf r2) of None \<Rightarrow> [] | Some fs \<Rightarrow> fs), t1, 0 :: nat)"
    have res: "tree_of (fst (tag_form_fields r)) = fst (snd st)"
      using False
      by (simp add: tag_form_fields_def Let_def r1_def [symmetric] tree_of_def st_def t1_def
          r2_def)
    have "tree_step (tree_of r1) t1"
      unfolding t1_def r2_def
      by (blast intro: tree_step_trans tree_step_fixed_start tree_step_ensure_K)
    then have a: "tree_step (tree_of r) t1" by (simp add: tree_of_cong [OF p])
    have "tree_step (fst (snd ((case AcroForm_Fields (pdf r2) of None \<Rightarrow> [] | Some fs \<Rightarrow> fs), t1, 0 :: nat)))
            (fst (snd st))"
      unfolding st_def
      by (rule fold_tree_step [where proj = "\<lambda>s. fst (snd s)"]) (rule tag_form_field_step)
    with a show ?thesis unfolding res by (auto intro: tree_step_trans)
  qed
qed

lemma tag_annotations_step: "tree_step (tree_of r) (tree_of (fst (tag_annotations r)))"
proof -
  define r1 where "r1 = (if annotations r = [] then analyze_annotations r else r)"
  have p: "pdf r1 = pdf r" by (simp add: r1_def pdf_analyze_annotations)
  show ?thesis
  proof (cases "annotations r1 = []")
    case True
    then show ?thesis
      by (simp add: tag_annotations_def Let_def r1_def [symmetric] tree_of_cong [OF p]
          tree_step_refl)
  next
    case False
    define r2 where "r2 = (if StructTreeRoot (pdf r1) = None then fst (fix_document_structure r1) else r1)"
    define t1 where "t1 = ensure_K (case StructTreeRoot (pdf r2) of
                             None \<Rightarrow> empty_struct_tree False | Some t \<Rightarrow> t)"
    define res where "res = tag_annotations_loop (annotations r2) (pages (pdf r2), t1, 0 :: nat)"
    have out: "tree_of (fst (tag_annotations r)) = fst (snd (snd res))"
      using False
      by (simp add: tag_annotations_def Let_def r1_def [symmetric] tree_of_def res_def t1_def
          r2_def)
    have "tree_step (tree_of r1) t1"
      unfolding t1_def r2_def
      by (blast intro: tree_step_trans tree_step_fixed_start tree_step_ensure_K)
    then have a: "tree_step (tree_of r) t1" by (simp add: tree_of_cong [OF p])
    have "tree_step (fst (snd (pages (pdf r2), t1, 0 :: nat))) (fst (snd (snd res)))"
      unfolding res_def by (rule tag_annotations_loop_step)
    with a show ?thesis unfolding out by (auto intro: tree_step_trans)
  qed
qed

lemma apply_op_step: "tree_step (tree_of r) (tree_of (apply_op op r))"
  by (cases op)
     (simp_all add: fix_document_structure_step tag_images_step tag_headings_step
        tag_tables_step tag_form_fields_step tag_annotations_step
        mark_unmarked_content_as_artifacts_step)

lemma run_ops_step: "tree_step (tree_of r) (tree_of (run_ops ops r))"
proof (induction ops arbitrary: r)
  case Nil
  show ?case by (simp add: run_ops_def tree_step_refl)
next
  case (Cons op ops)
  have "tree_step (tree_of r) (tree_of (apply_op op r))" by (rule apply_op_step)
  moreover have "tree_step (tree_of (apply_op op r)) (tree_of (run_ops ops (apply_op op r)))"
    by (rule Cons.IH)
  ultimately show ?case by (simp add: run_ops_def tree_step_trans)
qed

lemma struct_elems_tree_of: "struct_elems r = the_K (tree_of r)"
  by (simp add: struct_elems_def tree_of_def empty_struct_tree_K_Nums split: option.splits)

lemma parent_tree_nums_tree_of: "parent_tree_nums r = the_Nums (tree_of r)"
  by (simp add: parent_tree_nums_def tree_of_def empty_struct_tree_K_Nums split: option.splits)

lemma nums_dense_distinct: "nums_dense ns \<Longrightarrow> distinct (nums_keys ns)"
  by (simp add: nums_dense_def distinct_map inj_on_def)

section \<open>Properties of the structure-tree builder\<close>

text \<open>
  C1 (the code does not do what the claim says): a document of one page with one image of
  500 by 500 pixels and no structure tree is run through the builder; the result is loaded
  into a new remediator and run through the builder again. The first run creates one
  Figure node and one parent tree entry (two items of \<open>/Nums\<close>); the second run creates
  a second Figure node for the same image and a second parent tree entry, and reports one
  image tagged.
\<close>

theorem second_run_tags_image_again:
  "length (struct_elems (remediate_structure [] (new_remediator
      \<lparr>pages = [\<lparr>p_XObject = [(''/Im1'', \<lparr>x_Subtype = Some ''Image'', x_Width = Some 500,
                                            x_Height = Some 500\<rparr>)],
                  p_Annots = []\<rparr>],
       MarkInfo_Marked = None, StructTreeRoot = None, AcroForm_Fields = None\<rparr>))) = 1
   \<and> length (parent_tree_nums (remediate_structure [] (new_remediator
      \<lparr>pages = [\<lparr>p_XObject = [(''/Im1'', \<lparr>x_Subtype = Some ''Image'', x_Width = Some 500,
                                            x_Height = Some 500\<rparr>)],
                  p_Annots = []\<rparr>],
       MarkInfo_Marked = None, StructTreeRoot = None, AcroForm_Fields = None\<rparr>))) = 2
   \<and> map se_S (struct_elems (remediate_structure [] (new_remediator (pdf
        (remediate_structure [] (new_remediator
           \<lparr>pages = [\<lparr>p_XObject = [(''/Im1'', \<lparr>x_Subtype = Some ''Image'', x_Width = Some 500,
                                                 x_Height = Some 500\<rparr>)],
                       p_Annots = []\<rparr>],
            MarkInfo_Marked = None, StructTreeRoot = None, AcroForm_Fields = None\<rparr>))))))
       = [''Figure'', ''Figure'']
   \<and> length (parent_tree_nums (remediate_structure [] (new_remediator (pdf
        (remediate_structure [] (new_remediator
           \<lparr>pages = [\<lparr>p_XObject = [(''/Im1'', \<lparr>x_Subtype = Some ''Image'', x_Width = Some 500,
                                                 x_Height = Some 500\<rparr>)],
                       p_Annots = []\<rparr>],
            MarkInfo_Marked = None, StructTreeRoot = None, AcroForm_Fields = None\<rparr>)))))) = 4
   \<and> images_tagged (report (remediate_structure [] (new_remediator (pdf
        (remediate_structure [] (new_remediator
           \<lparr>pages = [\<lparr>p_XObject = [(''/Im1'', \<lparr>x_Subtype = Some ''Image'', x_Width = Some 500,
                                                 x_Height = Some 500\<rparr>)],
                       p_Annots = []\<rparr>],
            MarkInfo_Marked = None, StructTreeRoot = None, AcroForm_Fields = None\<rparr>)))))) = 1"
  by code_simp

text \<open>
  C8 (as the claim states it, refuted): the document comes with a parent tree whose only
  key is 1. The builder tags its one image under the index 1 (half the length of
  \<open>/Nums\<close>), so the key 1 stands twice in \<open>/Nums\<close> after the run.
\<close>

theorem parent_tree_index_collides:
  "nums_keys (parent_tree_nums (remediate_structure [] (new_remediator
      \<lparr>pages = [\<lparr>p_XObject = [(''/Im1'', \<lparr>x_Subtype = Some ''Image'', x_Width = Some 500,
                                            x_Height = Some 500\<rparr>)],
                  p_Annots = []\<rparr>],
       MarkInfo_Marked = Some True,
       StructTreeRoot = Some \<lparr>st_K = Some [],
                               st_ParentTree = Some \<lparr>pt_Nums = Some [NumInt 1, NumOther]\<rparr>,
                               st_RoleMap = False\<rparr>,
       AcroForm_Fields = None\<rparr>)))
     = [NumInt 1, NumInt 1]
   \<and> \<not> distinct [NumInt 1, NumInt 1]"
  by code_simp

text \<open>
  C8 (amended): when the parent tree at the start of a run is absent, empty, or has the
  keys 0, 1, ..., n-1 in this order, then after any sequence of builder operations (image,
  heading, table, form-field and annotation tagging, artifact marking) the old entries of
  \<open>/Nums\<close> are still in front, every node linked during the run has received the next
  index in increasing order, and no index stands twice in \<open>/Nums\<close>.
\<close>

theorem parent_tree_indices_fresh:
  assumes "nums_dense (parent_tree_nums r)"
  shows "(\<exists>more. parent_tree_nums (run_ops ops r) = parent_tree_nums r @ more)
       \<and> nums_keys (parent_tree_nums (run_ops ops r))
           = map (\<lambda>i. NumInt (int i)) [0 ..< length (parent_tree_nums (run_ops ops r)) div 2]
       \<and> distinct (nums_keys (parent_tree_nums (run_ops ops r)))"
proof -
  from run_ops_step [of r ops] assms
  have "\<exists>more. the_Nums (tree_of (run_ops ops r)) = the_Nums (tree_of r) @ more"
    and d: "nums_dense (the_Nums (tree_of (run_ops ops r)))"
    by (simp_all add: tree_step_def parent_tree_nums_tree_of)
  with nums_dense_distinct [OF d] show ?thesis
    by (simp add: parent_tree_nums_tree_of nums_dense_def)
qed

lemma empty_form_field_is_skipped:
  "map se_S (struct_elems (run_ops [FixStructure, TagImages, TagFormFields, TagAnnotations] (new_remediator
      \<lparr>pages = [\<lparr>p_XObject = [(''/Im1'', \<lparr>x_Subtype = Some ''Image'', x_Width = Some 500,
                                            x_Height = Some 500\<rparr>),
                               (''/Im2'', \<lparr>x_Subtype = Some ''Image'', x_Width = Some 10,
                                            x_Height = Some 10\<rparr>)],
                  p_Annots = [\<lparr>a_Subtype = Some ''Text'', a_Contents = None, a_URI = None,
                               a_has_Alt = False, a_StructParent = None, a_other = False\<rparr>]\<rparr>],
       MarkInfo_Marked = None, StructTreeRoot = None,
       AcroForm_Fields = Some [\<lparr>f_FT = Some ''Tx'', f_T = Some ''first_name'', f_TU = None,
                                 f_P = None, f_Ff = None, f_StructParent = None,
                                 f_other = False\<rparr>,
                               \<lparr>f_FT = None, f_T = None, f_TU = None, f_P = None, f_Ff = None,
                                 f_StructParent = None, f_other = False\<rparr>]\<rparr>)))
     = [''Figure'', ''Artifact'', ''Form'', ''Note'']
   \<and> form_fields_tagged (report (run_ops [FixStructure, TagImages, TagFormFields, TagAnnotations] (new_remediator
      \<lparr>pages = [\<lparr>p_XObject = [(''/Im1'', \<lparr>x_Subtype = Some ''Image'', x_Width = Some 500,
                                            x_Height = Some 500\<rparr>),
                               (''/Im2'', \<lparr>x_Subtype = Some ''Image'', x_Width = Some 10,
                                            x_Height = Some 10\<rparr>)],
                  p_Annots = [\<lparr>a_Subtype = Some ''Text'', a_Contents = None, a_URI = None,
                               a_has_Alt = False, a_StructParent = None, a_other = False\<rparr>]\<rparr>],
       MarkInfo_Marked = None, StructTreeRoot = None,
       AcroForm_Fields = Some [\<lparr>f_FT = Some ''Tx'', f_T = Some ''first_name'', f_TU = None,
                                 f_P = None, f_Ff = None, f_StructParent = None,
                                 f_other = False\<rparr>,
                               \<lparr>f_FT = None, f_T = None, f_TU = None, f_P = None, f_Ff = None,
                                 f_StructParent = None, f_other = False\<rparr>]\<rparr>))) = 1
   \<and> length (parent_tree_nums (run_ops [FixStructure, TagImages, TagFormFields, TagAnnotations] (new_remediator
      \<lparr>pages = [\<lparr>p_XObject = [(''/Im1'', \<lparr>x_Subtype = Some ''Image'', x_Width = Some 500,
                                            x_Height = Some 500\<rparr>),
                               (''/Im2'', \<lparr>x_Subtype = Some ''Image'', x_Width = Some 10,
                                            x_Height = Some 10\<rparr>)],
                  p_Annots = [\<lparr>a_Subtype = Some ''Text'', a_Contents = None, a_URI = None,
                               a_has_Alt = False, a_StructParent = None, a_other = False\<rparr>]\<rparr>],
       MarkInfo_Marked = None, StructTreeRoot = None,
       AcroForm_Fields = Some [\<lparr>f_FT = Some ''Tx'', f_T = Some ''first_name'', f_TU = None,
                                 f_P = None, f_Ff = None, f_StructParent = None,
                                 f_other = False\<rparr>,
                               \<lparr>f_FT = None, f_T = None, f_TU = None, f_P = None, f_Ff = None,
                                 f_StructParent = None, f_other = False\<rparr>]\<rparr>))) = 8"
  by code_simp

theorem parent_tree_indices_fresh_witness:
  "nums_dense (parent_tree_nums (new_remediator
      \<lparr>pages = [\<lparr>p_XObject = [(''/Im1'', \<lparr>x_Subtype = Some ''Image'', x_Width = Some 500,
                                            x_Height = Some 500\<rparr>),
                               (''/Im2'', \<lparr>x_Subtype = Some ''Image'', x_Width = Some 10,
                                            x_Height = Some 10\<rparr>)],
                  p_Annots = [\<lparr>a_Subtype = Some ''Text'', a_Contents = None, a_URI = None,
                               a_has_Alt = False, a_StructParent = None, a_other = False\<rparr>]\<rparr>],
       MarkInfo_Marked = None, StructTreeRoot = None,
       AcroForm_Fields = Some [\<lparr>f_FT = Some ''Tx'', f_T = Some ''first_name'', f_TU = None,
                                 f_P = None, f_Ff = None, f_StructParent = None,
                                 f_other = False\<rparr>,
                               \<lparr>f_FT = None, f_T = None, f_TU = None, f_P = None, f_Ff = None,
                                 f_StructParent = None, f_other = False\<rparr>]\<rparr>))
   \<and> nums_keys (parent_tree_nums (run_ops [FixStructure, TagImages, TagFormFields, TagAnnotations] (new_remediator
      \<lparr>pages = [\<lparr>p_XObject = [(''/Im1'', \<lparr>x_Subtype = Some ''Image'', x_Width = Some 500,
                                            x_Height = Some 500\<rparr>),
                               (''/Im2'', \<lparr>x_Subtype = Some ''Image'', x_Width = Some 10,
                                            x_Height = Some 10\<rparr>)],
                  p_Annots = [\<lparr>a_Subtype = Some ''Text'', a_Contents = None, a_URI = None,
                               a_has_Alt = False, a_StructParent = None, a_other = False\<rparr>]\<rparr>],
       MarkInfo_Marked = None, StructTreeRoot = None,
       AcroForm_Fields = Some [\<lparr>f_FT = Some ''Tx'', f_T = Some ''first_name'', f_TU = None,
                                 f_P = None, f_Ff = None, f_StructParent = None,
                                 f_other = False\<rparr>,
                               \<lparr>f_FT = None, f_T = None, f_TU = None, f_P = None, f_Ff = None,
                                 f_StructParent = None, f_other = False\<rparr>]\<rparr>)))
     = [NumInt 0, NumInt 1, NumInt 2, NumInt 3]
   \<and> distinct (nums_keys (parent_tree_nums (run_ops [FixStructure, TagImages, TagFormFields, TagAnnotations] (new_remediator
      \<lparr>pages = [\<lparr>p_XObject = [(''/Im1'', \<lparr>x_Subtype = Some ''Image'', x_Width = Some 500,
                                            x_Height = Some 500\<rparr>),
                               (''/Im2'', \<lparr>x_Subtype = Some ''Image'', x_Width = Some 10,
                                            x_Height = Some 10\<rparr>)],
                  p_Annots = [\<lparr>a_Subtype = Some ''Text'', a_Contents = None, a_URI = None,
                               a_has_Alt = False, a_StructParent = None, a_other = False\<rparr>]\<rparr>],
       MarkInfo_Marked = None, StructTreeRoot = None,
       AcroForm_Fields = Some [\<lparr>f_FT = Some ''Tx'', f_T = Some ''first_name'', f_TU = None,
                                 f_P = None, f_Ff = None, f_StructParent = None,
                                 f_other = False\<rparr>,
                               \<lparr>f_FT = None, f_T = None, f_TU = None, f_P = None, f_Ff = None,
                                 f_StructParent = None, f_other = False\<rparr>]\<rparr>))))"
proof -
  let ?r = "new_remediator
      \<lparr>pages = [\<lparr>p_XObject = [(''/Im1'', \<lparr>x_Subtype = Some ''Image'', x_Width = Some 500,
                                            x_Height = Some 500\<rparr>),
                               (''/Im2'', \<lparr>x_Subtype = Some ''Image'', x_Width = Some 10,
                                            x_Height = Some 10\<rparr>)],
                  p_Annots = [\<lparr>a_Subtype = Some ''Text'', a_Contents = None, a_URI = None,
                               a_has_Alt = False, a_StructParent = None, a_other = False\<rparr>]\<rparr>],
       MarkInfo_Marked = None, StructTreeRoot = None,
       AcroForm_Fields = Some [\<lparr>f_FT = Some ''Tx'', f_T = Some ''first_name'', f_TU = None,
                                 f_P = None, f_Ff = None, f_StructParent = None,
                                 f_other = False\<rparr>,
                               \<lparr>f_FT = None, f_T = None, f_TU = None, f_P = None, f_Ff = None,
                                 f_StructParent = None, f_other = False\<rparr>]\<rparr>"
  have h: "nums_dense (parent_tree_nums ?r)"
    by (simp add: nums_dense_def parent_tree_nums_def new_remediator_def)
  have k: "nums_keys (parent_tree_nums (run_ops [FixStructure, TagImages, TagFormFields, TagAnnotations] ?r))
             = [NumInt 0, NumInt 1, NumInt 2, NumInt 3]"
    by code_simp
  from parent_tree_indices_fresh [OF h, of "[FixStructure, TagImages, TagFormFields, TagAnnotations]"] h k
  show ?thesis by blast
qed

text \<open>
  C9: whatever sequence of builder operations runs, the nodes it creates are added after
  the nodes that were there, and every created node with the Artifact role carries an
  \<open>/Alt\<close> entry that is the empty string.
\<close>

theorem created_artifacts_have_empty_alt:
  "\<exists>new. struct_elems (run_ops ops r) = struct_elems r @ new
         \<and> (\<forall>e \<in> set new. se_S e = ''Artifact'' \<longrightarrow> se_Alt e = Some [])"
  using run_ops_step [of r ops]
  by (simp add: tree_step_def struct_elems_tree_of list_all_iff artifact_alt_empty_def)

theorem created_artifacts_have_empty_alt_witness:
  "map (\<lambda>e. (se_S e, se_Alt e)) (struct_elems (run_ops [TagImages, MarkArtifacts] (new_remediator
      \<lparr>pages = [\<lparr>p_XObject = [(''/Im2'', \<lparr>x_Subtype = Some ''Image'', x_Width = Some 10,
                                            x_Height = Some 10\<rparr>),
                               (''/Fm1'', \<lparr>x_Subtype = Some ''Form'', x_Width = None,
                                            x_Height = None\<rparr>)],
                  p_Annots = []\<rparr>],
       MarkInfo_Marked = None, StructTreeRoot = None, AcroForm_Fields = None\<rparr>)))
     = [(''Artifact'', Some []), (''Artifact'', Some [])]
   \<and> (\<exists>new. struct_elems (run_ops [TagImages, MarkArtifacts] (new_remediator
      \<lparr>pages = [\<lparr>p_XObject = [(''/Im2'', \<lparr>x_Subtype = Some ''Image'', x_Width = Some 10,
                                            x_Height = Some 10\<rparr>),
                               (''/Fm1'', \<lparr>x_Subtype = Some ''Form'', x_Width = None,
                                            x_Height = None\<rparr>)],
                  p_Annots = []\<rparr>],
       MarkInfo_Marked = None, StructTreeRoot = None, AcroForm_Fields = None\<rparr>))
        = struct_elems (new_remediator
      \<lparr>pages = [\<lparr>p_XObject = [(''/Im2'', \<lparr>x_Subtype = Some ''Image'', x_Width = Some 10,
                                            x_Height = Some 10\<rparr>),
                               (''/Fm1'', \<lparr>x_Subtype = Some ''Form'', x_Width = None,
                                            x_Height = None\<rparr>)],
                  p_Annots = []\<rparr>],
       MarkInfo_Marked = None, StructTreeRoot = None, AcroForm_Fields = None\<rparr>) @ new
      \<and> (\<forall>e \<in> set new. se_S e = ''Artifact'' \<longrightarrow> se_Alt e = Some []))"
proof -
  let ?r = "new_remediator
      \<lparr>pages = [\<lparr>p_XObject = [(''/Im2'', \<lparr>x_Subtype = Some ''Image'', x_Width = Some 10,
                                            x_Height = Some 10\<rparr>),
                               (''/Fm1'', \<lparr>x_Subtype = Some ''Form'', x_Width = None,
                                            x_Height = None\<rparr>)],
                  p_Annots = []\<rparr>],
       MarkInfo_Marked = None, StructTreeRoot = None, AcroForm_Fields = None\<rparr>"
  have k: "map (\<lambda>e. (se_S e, se_Alt e)) (struct_elems (run_ops [TagImages, MarkArtifacts] ?r))
             = [(''Artifact'', Some []), (''Artifact'', Some [])]"
    by code_simp
  from created_artifacts_have_empty_alt [of "[TagImages, MarkArtifacts]" ?r] k
  show ?thesis by blast
qed

section \<open>Properties of the link remediator\<close>

lemma link_of_annot_descriptive:
  "link_of_annot page_num annot = Some l \<Longrightarrow> link_is_descriptive l = (\<not> is_generic_link_text l)"
  by (auto simp: link_of_annot_def is_generic_link_text_def Let_def split: if_splits)

lemma analyze_links_descriptive:
  assumes "l \<in> set (links (analyze_links r))"
  shows "link_is_descriptive l = (\<not> is_generic_link_text l)"
proof -
  from assms obtain page_num annot where "link_of_annot page_num annot = Some l"
    by (auto simp: analyze_links_def map_filter_def)
  then show ?thesis by (rule link_of_annot_descriptive)
qed

text \<open>
  C10 (as the claim states it, refuted): a link whose text is ``download'' (not empty, not
  one of ``click here'', ``read more'', ``more'', ``link'', ``here'') is rewritten to
  ``Link to example.com''.
\<close>

theorem fix_links_rewrites_download:
  "map link_text (links (fst (fix_links (new_remediator
      \<lparr>pages = [\<lparr>p_XObject = [],
                  p_Annots = [\<lparr>a_Subtype = Some ''Link'', a_Contents = Some ''download'',
                               a_URI = Some ''https://www.example.com/files/report.pdf'',
                               a_has_Alt = False, a_StructParent = None, a_other = False\<rparr>]\<rparr>],
       MarkInfo_Marked = None, StructTreeRoot = None, AcroForm_Fields = None\<rparr>))))
     = [''Link to example.com'']
   \<and> ''download'' \<noteq> []
   \<and> py_lower ''download'' \<notin> set [''click here'', ''read more'', ''more'', ''link'', ''here'']"
  by code_simp

text \<open>
  C10 (amended): for every link that the analysis of a document finds, the link remediator
  rewrites its text (to ``Link to'' and the host taken from the URL) only if the link has a
  URL and its text, in lower case and stripped, is one of the ten phrases ``click here'',
  ``read more'', ``more'', ``link'', ``here'', ``this'', ``page'', ``website'',
  ``download'', ``view'' or has fewer than three characters (the empty text included);
  every other link is left unchanged.
\<close>

theorem fix_links_rewrites_generic_only:
  assumes "links r = []"
  shows "links (fst (fix_links r))
         = map (\<lambda>l. if (py_strip (py_lower (link_text l))
                            \<in> set [''click here'', ''read more'', ''more'', ''link'', ''here'',
                                    ''this'', ''page'', ''website'', ''download'', ''view'']
                          \<or> length (py_strip (py_lower (link_text l))) < 3)
                         \<and> link_url l \<noteq> []
                      then l\<lparr>link_text := generate_link_description (link_url l)\<rparr>
                      else l)
               (links (analyze_links r))"
proof -
  have "fix_link l = (if (py_strip (py_lower (link_text l))
                            \<in> set [''click here'', ''read more'', ''more'', ''link'', ''here'',
                                    ''this'', ''page'', ''website'', ''download'', ''view'']
                          \<or> length (py_strip (py_lower (link_text l))) < 3)
                         \<and> link_url l \<noteq> []
                      then l\<lparr>link_text := generate_link_description (link_url l)\<rparr>
                      else l)"
    if "l \<in> set (links (analyze_links r))" for l
    using analyze_links_descriptive [OF that]
    by (simp add: fix_link_def is_generic_link_text_def generic_phrases_def Let_def)
  then show ?thesis
    using assms by (simp add: fix_links_def Let_def)
qed

theorem fix_links_rewrites_generic_only_witness:
  "links (new_remediator
      \<lparr>pages = [\<lparr>p_XObject = [],
                  p_Annots = [\<lparr>a_Subtype = Some ''Link'', a_Contents = Some ''Annual report 2024'',
                               a_URI = Some ''https://www.example.com/files/report.pdf'',
                               a_has_Alt = False, a_StructParent = None, a_other = False\<rparr>,
                              \<lparr>a_Subtype = Some ''Link'', a_Contents = None,
                               a_URI = Some ''http://my-site.org/x'',
                               a_has_Alt = False, a_StructParent = None, a_other = False\<rparr>]\<rparr>],
       MarkInfo_Marked = None, StructTreeRoot = None, AcroForm_Fields = None\<rparr>) = []
   \<and> map link_text (links (fst (fix_links (new_remediator
      \<lparr>pages = [\<lparr>p_XObject = [],
                  p_Annots = [\<lparr>a_Subtype = Some ''Link'', a_Contents = Some ''Annual report 2024'',
                               a_URI = Some ''https://www.example.com/files/report.pdf'',
                               a_has_Alt = False, a_StructParent = None, a_other = False\<rparr>,
                              \<lparr>a_Subtype = Some ''Link'', a_Contents = None,
                               a_URI = Some ''http://my-site.org/x'',
                               a_has_Alt = False, a_StructParent = None, a_other = False\<rparr>]\<rparr>],
       MarkInfo_Marked = None, StructTreeRoot = None, AcroForm_Fields = None\<rparr>))))
     = [''Annual report 2024'', ''Link to my site.org'']"
proof -
  let ?r = "new_remediator
      \<lparr>pages = [\<lparr>p_XObject = [],
                  p_Annots = [\<lparr>a_Subtype = Some ''Link'', a_Contents = Some ''Annual report 2024'',
                               a_URI = Some ''https://www.example.com/files/report.pdf'',
                               a_has_Alt = False, a_StructParent = None, a_other = False\<rparr>,
                              \<lparr>a_Subtype = Some ''Link'', a_Contents = None,
                               a_URI = Some ''http://my-site.org/x'',
                               a_has_Alt = False, a_StructParent = None, a_other = False\<rparr>]\<rparr>],
       MarkInfo_Marked = None, StructTreeRoot = None, AcroForm_Fields = None\<rparr>"
  have h: "links ?r = []" by (simp add: new_remediator_def)
  have v: "map link_text
             (map (\<lambda>l. if (py_strip (py_lower (link_text l))
                            \<in> set [''click here'', ''read more'', ''more'', ''link'', ''here'',
                                    ''this'', ''page'', ''website'', ''download'', ''view'']
                          \<or> length (py_strip (py_lower (link_text l))) < 3)
                         \<and> link_url l \<noteq> []
                      then l\<lparr>link_text := generate_link_description (link_url l)\<rparr>
                      else l)
               (links (analyze_links ?r)))
           = [''Annual report 2024'', ''Link to my site.org'']"
    by code_simp
  from fix_links_rewrites_generic_only [OF h] h v show ?thesis by simp
qed

end
